theory Spec2Isabelle
  imports Main "HOL-Library.Word"
begin

section \<open>Gateway (web-server.js): configuration and port registry\<close>

text \<open>
  The Gateway is the second program of \<^verbatim>\<open>src/unnamed/part_000\<close> (web-server.js with UDP
  support, lines 454-1374); the Agent is \<^verbatim>\<open>src/unnamed/part_001\<close>. JavaScript numbers that
  hold ports, identifiers and lengths are modelled as \<open>nat\<close>, buffers as lists of bytes,
  a \<open>Map\<close> as a partial function, and a socket object as its identity (a number) together
  with a store of the sockets that are destroyed and of what has been written to each.
\<close>

type_synonym port = nat
type_synonym sock = nat
type_synonym byte = "8 word"

text \<open>\<^verbatim>\<open>config.portRanges[i]\<close> and \<^verbatim>\<open>config.specificPorts[i]\<close>, as read from config.json.\<close>

record port_range =
  range_name :: string
  startPort :: port
  endPort :: port
  range_enabled :: bool

record specific_port =
  spec_name :: string
  spec_port :: port
  spec_enabled :: bool

record server_config =
  webPort :: port
  localProxyPort :: port

record config =
  server :: server_config
  portRanges :: "port_range list"
  specificPorts :: "specific_port list"

text \<open>
  The objects pushed by \<^verbatim>\<open>getAvailablePorts\<close>: \<^verbatim>\<open>{port, type, source, id, enabled: true}\<close>.
  The \<^verbatim>\<open>id\<close> string is only displayed and is left out.
\<close>

datatype port_kind = Range | Specific

record port_entry =
  port :: port
  kind :: port_kind
  source :: string
  enabled :: bool

text \<open>
  \<^verbatim>\<open>getAvailablePorts(config)\<close> (part_000, lines 501-533): every enabled range is expanded by
  \<^verbatim>\<open>for (port = startPort; port <= endPort; port++)\<close>, in the order of the configuration,
  and the enabled specific ports follow.
\<close>

definition expandRange :: "port_range \<Rightarrow> port_entry list" where
  "expandRange r =
     (if range_enabled r
      then map (\<lambda>p. \<lparr>port = p, kind = Range, source = range_name r, enabled = True\<rparr>)
             [startPort r ..< Suc (endPort r)]
      else [])"

definition expandSpecific :: "specific_port \<Rightarrow> port_entry list" where
  "expandSpecific s =
     (if spec_enabled s
      then [\<lparr>port = spec_port s, kind = Specific, source = spec_name s, enabled = True\<rparr>]
      else [])"

definition getAvailablePorts :: "config \<Rightarrow> port_entry list" where
  "getAvailablePorts cfg =
     concat (map expandRange (portRanges cfg)) @ concat (map expandSpecific (specificPorts cfg))"

subsection \<open>The state of the Gateway process\<close>

text \<open>Entries of \<^verbatim>\<open>waitingQueue\<close> (the timestamp is written and never read).\<close>

record connection_info =
  ci_id :: nat
  ci_socket :: sock
  ci_publicPort :: port
  ci_localPort :: port

text \<open>\<^verbatim>\<open>rinfo\<close> of a datagram: the sender's address, as dotted text, and its port.\<close>

record rinfo =
  address :: string
  rport :: nat

text \<open>
  Values of \<^verbatim>\<open>activeConnections\<close> (addresses and start time are display only), and the
  counters of \<^verbatim>\<open>connectionStats\<close> that are counted up and down (\<^verbatim>\<open>activePorts\<close> and
  \<^verbatim>\<open>totalMappings\<close> are recomputed from the sizes of the maps on every use).
\<close>

record connection_data =
  cd_id :: nat
  cd_publicPort :: port
  cd_localPort :: port
  cd_bytesTransferred :: nat
  cd_isUDP :: bool

record stats =
  totalConnections :: nat
  activeCount :: int
  totalDataTransferred :: nat

datatype level = Info | Success | Warning | Error

text \<open>
  The module-level variables of web-server.js (lines 542-564), followed by the environment:
  \<open>destroyed\<close> holds the sockets whose \<^verbatim>\<open>destroyed\<close> flag is set, \<open>written\<close> the chunks passed
  to \<^verbatim>\<open>socket.write\<close>, \<open>forwarding\<close> the pairs wired by \<^verbatim>\<open>establishConnection\<close> (connection
  id, external socket, Agent socket), \<open>udpPending\<close> the \<^verbatim>\<open>responseHandler\<close> closures attached
  to Agent sockets (with the \<^verbatim>\<open>connId\<close>, \<^verbatim>\<open>localSocket\<close>, \<^verbatim>\<open>rinfo\<close> and \<^verbatim>\<open>publicPort\<close> they
  captured), \<open>udpSent\<close> the datagrams passed to \<^verbatim>\<open>udpServer.send\<close>, and \<open>logs\<close> the calls of
  \<^verbatim>\<open>broadcastLog\<close> with an English gloss of the message.
\<close>

record gateway =
  config :: config
  connectionId :: nat
  waitingQueue :: "port \<rightharpoonup> connection_info list"
  idleLocalSockets :: "port \<rightharpoonup> sock list"
  activeConnections :: "nat \<rightharpoonup> connection_data"
  activeServers :: "port set"
  activeUdpServers :: "port set"
  portMappings :: "port \<rightharpoonup> port"
  portProtocols :: "port \<rightharpoonup> string"
  connectionStats :: stats
  destroyed :: "sock set"
  written :: "sock \<Rightarrow> byte list list"
  forwarding :: "(nat \<times> sock \<times> sock) list"
  udpPending :: "(nat \<times> sock \<times> rinfo \<times> port) list"
  udpSent :: "(port \<times> rinfo \<times> byte list) list"
  logs :: "(level \<times> string) list"

definition broadcastLog :: "level \<Rightarrow> string \<Rightarrow> gateway \<Rightarrow> gateway" where
  "broadcastLog l m st = st\<lparr>logs := logs st @ [(l, m)]\<rparr>"

text \<open>\<^verbatim>\<open>isPortOccupied(port)\<close> (lines 536-539).\<close>

definition isPortOccupied :: "gateway \<Rightarrow> port \<Rightarrow> bool" where
  "isPortOccupied st p =
     (p \<in> activeServers st \<or> p \<in> activeUdpServers st \<or>
      p = webPort (server (config st)) \<or> p = localProxyPort (server (config st)))"

text \<open>\<^verbatim>\<open>GET /api/ports/available\<close> (lines 606-609) answers with \<^verbatim>\<open>getAvailablePorts(config)\<close>.\<close>

definition apiPortsAvailable :: "gateway \<Rightarrow> port_entry list" where
  "apiPortsAvailable st = getAvailablePorts (config st)"

text \<open>
  The port selection of \<^verbatim>\<open>POST /api/ports/allocate\<close> (lines 624-644). \<^verbatim>\<open>preferredPort\<close> is
  absent (\<open>None\<close>) or a number; \<^verbatim>\<open>allocatedPort\<close> starts as \<^verbatim>\<open>null\<close>. A JavaScript
  condition on a number holds when the number is not 0.
\<close>

definition truthy :: "nat option \<Rightarrow> bool" where
  "truthy v = (case v of None \<Rightarrow> False | Some n \<Rightarrow> n \<noteq> 0)"

definition unoccupiedPorts :: "gateway \<Rightarrow> port_entry list" where
  "unoccupiedPorts st =
     filter (\<lambda>p. enabled p \<and> \<not> isPortOccupied st (port p)) (getAvailablePorts (config st))"

definition isPreferredAvailable :: "gateway \<Rightarrow> port \<Rightarrow> bool" where
  "isPreferredAvailable st preferredPort =
     list_ex (\<lambda>p. port p = preferredPort \<and> enabled p) (getAvailablePorts (config st))"

definition selectPort :: "gateway \<Rightarrow> nat option \<Rightarrow> nat option" where
  "selectPort st preferredPort =
     (let allocatedPort =
            (case preferredPort of
               None \<Rightarrow> None
             | Some pp \<Rightarrow>
                 if pp \<noteq> 0 \<and> \<not> isPortOccupied st pp \<and> isPreferredAvailable st pp
                 then Some pp else None)
      in if \<not> truthy allocatedPort
         then (case unoccupiedPorts st of
                 [] \<Rightarrow> allocatedPort
               | p # _ \<Rightarrow> Some (port p))
         else allocatedPort)"


subsection \<open>Creating a port mapping\<close>

text \<open>
  What the operating system answers to \<^verbatim>\<open>externalServer.listen(publicPort)\<close> and to
  \<^verbatim>\<open>udpServer.bind(publicPort)\<close>: the call throws, or it returns and later the \<^verbatim>\<open>listening\<close>
  callback runs, or it returns and later the \<^verbatim>\<open>error\<close> event is emitted (the port is in use:
  a bind failure is reported asynchronously). The source wraps both calls in \<^verbatim>\<open>try\<close> and
  \<^verbatim>\<open>catch\<close>, so both have the three outcomes here; Node's \<^verbatim>\<open>listen\<close> throws on a port that is
  no port number, while its \<^verbatim>\<open>dgram\<close> sockets report a failed bind through the \<^verbatim>\<open>error\<close> event,
  so no property below rests on the UDP call throwing.
\<close>

datatype bind_outcome = Throws | Listens | EmitsError

definition wantsTcp :: "string \<Rightarrow> bool" where
  "wantsTcp protocol = (protocol = ''tcp'' \<or> protocol = ''both'')"

definition wantsUdp :: "string \<Rightarrow> bool" where
  "wantsUdp protocol = (protocol = ''udp'' \<or> protocol = ''both'')"

definition initPools :: "port \<Rightarrow> gateway \<Rightarrow> gateway" where
  "initPools publicPort st =
     (let st1 = (if waitingQueue st publicPort = None
                 then st\<lparr>waitingQueue := (waitingQueue st)(publicPort \<mapsto> [])\<rparr> else st)
      in if idleLocalSockets st1 publicPort = None
         then st1\<lparr>idleLocalSockets := (idleLocalSockets st1)(publicPort \<mapsto> [])\<rparr> else st1)"

text \<open>
  \<^verbatim>\<open>createPortMapping(localPort, publicPort, protocol)\<close> (lines 705-786), up to its return.
  \<^verbatim>\<open>tcpSuccess\<close> and \<^verbatim>\<open>udpSuccess\<close> start as \<^verbatim>\<open>true\<close> and are cleared in the \<^verbatim>\<open>catch\<close> blocks, that
  is when the call throws; the \<^verbatim>\<open>error\<close> handlers clear them too, but they run after the
  function has returned. The source's comment on the test \<^verbatim>\<open>tcpSuccess || udpSuccess\<close> reads
  "one protocol succeeding counts as success".
\<close>

definition createPortMapping ::
  "gateway \<Rightarrow> port \<Rightarrow> port \<Rightarrow> string \<Rightarrow> bind_outcome \<Rightarrow> bind_outcome \<Rightarrow> bool \<times> gateway" where
  "createPortMapping st localPort publicPort protocol tcpBind udpBind =
     (if publicPort \<in> activeServers st \<or> publicPort \<in> activeUdpServers st then (False, st)
      else
        let st1 = st\<lparr>portProtocols := (portProtocols st)(publicPort \<mapsto> protocol)\<rparr>;
            tcpSuccess = \<not> (wantsTcp protocol \<and> tcpBind = Throws);
            udpSuccess = \<not> (wantsUdp protocol \<and> udpBind = Throws)
        in if tcpSuccess \<or> udpSuccess
           then (True, initPools publicPort
                         (st1\<lparr>portMappings := (portMappings st1)(localPort \<mapsto> publicPort)\<rparr>))
           else (False, st1))"




text \<open>
  The handler of \<^verbatim>\<open>POST /api/ports/allocate\<close> (lines 620-677). \<^verbatim>\<open>protocol\<close> defaults to
  \<^verbatim>\<open>'both'\<close>. \<^verbatim>\<open>createPortMapping\<close> catches its own exceptions, so the handler's \<^verbatim>\<open>catch\<close> is
  not reached.
\<close>

datatype response =
    AllocSuccess port port string
  | CreateMappingFailed
  | NoAvailablePort

definition allocate ::
  "gateway \<Rightarrow> port \<Rightarrow> nat option \<Rightarrow> string option \<Rightarrow> bind_outcome \<Rightarrow> bind_outcome
     \<Rightarrow> response \<times> gateway" where
  "allocate st localPort preferredPort protocolOpt tcpBind udpBind =
     (let protocol = (case protocolOpt of None \<Rightarrow> ''both'' | Some p \<Rightarrow> p);
          allocatedPort = selectPort st preferredPort
      in case allocatedPort of
           None \<Rightarrow> (NoAvailablePort, st)
         | Some p \<Rightarrow>
             if p = 0 then (NoAvailablePort, st)
             else (case createPortMapping st localPort p protocol tcpBind udpBind of
                     (True, st1) \<Rightarrow>
                       (AllocSuccess localPort p protocol,
                        broadcastLog Success ''port allocated'' st1)
                   | (False, st1) \<Rightarrow> (CreateMappingFailed, st1)))"


section \<open>Framing\<close>

subsection \<open>Buffer reads and writes\<close>

text \<open>
  Node's \<^verbatim>\<open>Buffer\<close> methods throw a \<^verbatim>\<open>RangeError\<close> on a value outside the field and on an
  offset outside the buffer: \<open>None\<close> here.
\<close>

definition writeUInt8 :: "int \<Rightarrow> byte option" where
  "writeUInt8 v = (if 0 \<le> v \<and> v \<le> 255 then Some (word_of_int v) else None)"

definition writeUInt16BE :: "nat \<Rightarrow> byte list option" where
  "writeUInt16BE v =
     (if v \<le> 65535 then Some [of_nat (v div 256), of_nat (v mod 256)] else None)"

definition writeUInt32BE :: "nat \<Rightarrow> byte list option" where
  "writeUInt32BE v =
     (if v \<le> 4294967295
      then Some [of_nat (v div 16777216), of_nat (v div 65536 mod 256),
                 of_nat (v div 256 mod 256), of_nat (v mod 256)]
      else None)"

definition readUInt16BE :: "byte list \<Rightarrow> nat \<Rightarrow> nat option" where
  "readUInt16BE data off =
     (if off + 2 \<le> length data
      then Some (unat (data ! off) * 256 + unat (data ! (off + 1)))
      else None)"

definition readUInt32BE :: "byte list \<Rightarrow> nat \<Rightarrow> nat option" where
  "readUInt32BE data off =
     (if off + 4 \<le> length data
      then Some (unat (data ! off) * 16777216 + unat (data ! (off + 1)) * 65536 +
                 unat (data ! (off + 2)) * 256 + unat (data ! (off + 3)))
      else None)"

text \<open>\<^verbatim>\<open>data.slice(a, b)\<close> for \<open>a \<le> b\<close>: the end is clipped to the buffer.\<close>

definition slice :: "'a list \<Rightarrow> nat \<Rightarrow> nat \<Rightarrow> 'a list" where
  "slice data a b = take (b - a) (drop a data)"

subsection \<open>Text and numbers\<close>

text \<open>
  \<^verbatim>\<open>address.split('.')\<close>, \<^verbatim>\<open>parseInt\<close> and the decimal text of a number in a template
  string. \<^verbatim>\<open>parseInt\<close> skips leading white space, reads a sign, takes base 16 after
  \<^verbatim>\<open>0x\<close> and base 10 otherwise, reads digits as long as there are any, and answers
  \<^verbatim>\<open>NaN\<close> (\<open>None\<close>) when there is none. Characters are the code units below 256, so the
  white space of JavaScript is the space, the controls U+0009 to U+000D and the no-break
  space U+00A0.
\<close>

fun splitOn :: "char \<Rightarrow> string \<Rightarrow> string list" where
  "splitOn c [] = [[]]"
| "splitOn c (x # xs) =
     (if x = c then [] # splitOn c xs
      else (case splitOn c xs of
              [] \<Rightarrow> [[x]]
            | y # ys \<Rightarrow> (x # y) # ys))"

definition isWhiteSpace :: "char \<Rightarrow> bool" where
  "isWhiteSpace c =
     (c \<in> set [CHR '' '', CHR 0x09, CHR 0x0A, CHR 0x0B, CHR 0x0C, CHR 0x0D, CHR 0xA0])"

definition digitValue :: "char \<Rightarrow> nat option" where
  "digitValue c =
     (let n = of_char c :: nat
      in if 48 \<le> n \<and> n \<le> 57 then Some (n - 48)
         else if 97 \<le> n \<and> n \<le> 102 then Some (n - 87)
         else if 65 \<le> n \<and> n \<le> 70 then Some (n - 55)
         else None)"

definition isDigitOf :: "nat \<Rightarrow> char \<Rightarrow> bool" where
  "isDigitOf radix c = (case digitValue c of None \<Rightarrow> False | Some d \<Rightarrow> d < radix)"

definition digitsValue :: "nat \<Rightarrow> string \<Rightarrow> nat" where
  "digitsValue radix ds = foldl (\<lambda>acc c. acc * radix + (case digitValue c of None \<Rightarrow> 0 | Some d \<Rightarrow> d)) 0 ds"

definition parseInt :: "string \<Rightarrow> int option" where
  "parseInt str =
     (let s1 = dropWhile isWhiteSpace str;
          neg = (case s1 of c # _ \<Rightarrow> c = CHR ''-'' | [] \<Rightarrow> False);
          s2 = (case s1 of c # r \<Rightarrow> if c = CHR ''-'' \<or> c = CHR ''+'' then r else s1 | [] \<Rightarrow> s1);
          hex = (take 2 s2 = ''0x'' \<or> take 2 s2 = ''0X'');
          radix = (if hex then 16 else 10);
          s3 = (if hex then drop 2 s2 else s2);
          ds = takeWhile (isDigitOf radix) s3
      in if ds = [] then None
         else Some ((if neg then - 1 else 1) * int (digitsValue radix ds)))"

function showNat :: "nat \<Rightarrow> string" where
  "showNat n =
     (if n < 10 then [char_of (48 + n)] else showNat (n div 10) @ [char_of (48 + n mod 10)])"
  by pat_completeness auto
termination
  by (relation "measure id") auto

declare showNat.simps [simp del]

subsection \<open>The UDP envelope written by the Gateway\<close>

text \<open>
  Lines 831-843 of \<^verbatim>\<open>handleUdpMessage\<close>: four bytes \<^verbatim>\<open>parseInt(ipParts[i]) || 0\<close>, the
  sender's port and the length of the datagram as big-endian 16-bit numbers, then the
  datagram. A missing part of the address is \<^verbatim>\<open>undefined\<close>, which \<^verbatim>\<open>parseInt\<close> turns into
  \<^verbatim>\<open>NaN\<close> and \<^verbatim>\<open>|| 0\<close> into 0.
\<close>

definition ipPart :: "string list \<Rightarrow> nat \<Rightarrow> int" where
  "ipPart ipParts i =
     (case (if i < length ipParts then parseInt (ipParts ! i) else None) of
        None \<Rightarrow> 0
      | Some v \<Rightarrow> v)"

definition wrapUdp :: "rinfo \<Rightarrow> byte list \<Rightarrow> byte list option" where
  "wrapUdp ri msg =
     (let ipParts = splitOn CHR ''.'' (address ri)
      in case (writeUInt8 (ipPart ipParts 0), writeUInt8 (ipPart ipParts 1),
               writeUInt8 (ipPart ipParts 2), writeUInt8 (ipPart ipParts 3),
               writeUInt16BE (rport ri), writeUInt16BE (length msg)) of
           (Some b0, Some b1, Some b2, Some b3, Some p, Some n) \<Rightarrow>
             Some ([b0, b1, b2, b3] @ p @ n @ msg)
         | _ \<Rightarrow> None)"


section \<open>Gateway: UDP dispatch\<close>

definition getOrEmpty :: "('k \<rightharpoonup> 'a list) \<Rightarrow> 'k \<Rightarrow> 'a list" where
  "getOrEmpty m k = (case m k of None \<Rightarrow> [] | Some xs \<Rightarrow> xs)"

datatype udp_outcome = Dropped | Forwarded nat sock | Threw

text \<open>
  Lines 813-907 of \<^verbatim>\<open>handleUdpMessage\<close>, reached with a socket that is not destroyed: the
  exchange is recorded, the envelope is written to the socket in one \<^verbatim>\<open>write\<close>, and the
  \<^verbatim>\<open>responseHandler\<close> and the 30 s timer are set up. A \<^verbatim>\<open>RangeError\<close> of a buffer write
  leaves the function at that line.
\<close>

definition forwardUdp ::
  "gateway \<Rightarrow> nat \<Rightarrow> sock \<Rightarrow> byte list \<Rightarrow> rinfo \<Rightarrow> port \<Rightarrow> port \<Rightarrow> udp_outcome \<times> gateway" where
  "forwardUdp st connId localSocket msg ri publicPort localPort =
     (let connectionData = \<lparr>cd_id = connId, cd_publicPort = publicPort, cd_localPort = localPort,
                             cd_bytesTransferred = length msg, cd_isUDP = True\<rparr>;
          st1 = st\<lparr>activeConnections := (activeConnections st)(connId \<mapsto> connectionData),
                   connectionStats := (connectionStats st)
                     \<lparr>activeCount := activeCount (connectionStats st) + 1\<rparr>\<rparr>;
          st2 = broadcastLog Success ''UDP proxy established'' st1
      in case wrapUdp ri msg of
           None \<Rightarrow> (Threw, st2)
         | Some wrappedData \<Rightarrow>
             (Forwarded connId localSocket,
              st2\<lparr>written := (written st2)(localSocket := written st2 localSocket @ [wrappedData]),
                  connectionStats := (connectionStats st2)
                    \<lparr>totalDataTransferred :=
                       totalDataTransferred (connectionStats st2) + length msg\<rparr>,
                  udpPending := udpPending st2 @ [(connId, localSocket, ri, publicPort)]\<rparr>))"

text \<open>
  \<^verbatim>\<open>handleUdpMessage(msg, rinfo, publicPort, localPort)\<close> (lines 789-811). Every call takes a
  new \<^verbatim>\<open>connId\<close> and counts one in \<^verbatim>\<open>totalConnections\<close> (\<open>countCall\<close>, lines 790-793); the
  first socket is taken out of the pool by \<^verbatim>\<open>shift\<close> (\<open>shiftIdle\<close>, lines 804-805) before its
  \<^verbatim>\<open>destroyed\<close> flag is read, and a destroyed socket makes the function call itself.
\<close>

definition countCall :: "gateway \<Rightarrow> gateway" where
  "countCall st =
     broadcastLog Info ''UDP message received''
       (st\<lparr>connectionId := Suc (connectionId st),
           connectionStats := (connectionStats st)
             \<lparr>totalConnections := Suc (totalConnections (connectionStats st))\<rparr>\<rparr>)"

definition shiftIdle :: "port \<Rightarrow> sock list \<Rightarrow> gateway \<Rightarrow> gateway" where
  "shiftIdle publicPort sockets st =
     st\<lparr>idleLocalSockets := (idleLocalSockets st)(publicPort \<mapsto> sockets)\<rparr>"

function handleUdpMessage ::
  "gateway \<Rightarrow> byte list \<Rightarrow> rinfo \<Rightarrow> port \<Rightarrow> port \<Rightarrow> udp_outcome \<times> gateway" where
  "handleUdpMessage st msg ri publicPort localPort =
     (let st1 = countCall st;
          connId = connectionId st1
      in case getOrEmpty (idleLocalSockets st1) publicPort of
           [] \<Rightarrow> (Dropped, broadcastLog Warning ''no idle agent connection for UDP data'' st1)
         | localSocket # sockets \<Rightarrow>
             let st2 = shiftIdle publicPort sockets st1
             in if localSocket \<in> destroyed st2
                then handleUdpMessage
                       (broadcastLog Warning ''selected agent connection is gone, retrying'' st2)
                       msg ri publicPort localPort
                else forwardUdp st2 connId localSocket msg ri publicPort localPort)"
  by pat_completeness auto
termination
  by (relation "measure (\<lambda>(st, msg, ri, publicPort, localPort).
                   length (getOrEmpty (idleLocalSockets st) publicPort))")
     (auto simp: getOrEmpty_def broadcastLog_def countCall_def shiftIdle_def split: option.splits)

declare handleUdpMessage.simps [simp del]

text \<open>
  The \<^verbatim>\<open>responseHandler\<close> closure (lines 852-888), called with a chunk that arrives on the
  Agent socket, and the 30 s timer (lines 894-907). Both put the socket back at the end
  of the pool. The \<^verbatim>\<open>send\<close> callback is modelled for a send that succeeds.
\<close>

definition returnToPool :: "nat \<Rightarrow> sock \<Rightarrow> port \<Rightarrow> gateway \<Rightarrow> gateway" where
  "returnToPool connId localSocket publicPort st =
     st\<lparr>activeConnections := (activeConnections st)(connId := None),
        connectionStats := (connectionStats st)
          \<lparr>activeCount := activeCount (connectionStats st) - 1\<rparr>,
        udpPending := filter (\<lambda>h. fst h \<noteq> connId) (udpPending st),
        idleLocalSockets := (idleLocalSockets st)
          (publicPort \<mapsto> getOrEmpty (idleLocalSockets st) publicPort @ [localSocket])\<rparr>"

definition responseHandler ::
  "gateway \<Rightarrow> nat \<Rightarrow> sock \<Rightarrow> rinfo \<Rightarrow> port \<Rightarrow> byte list \<Rightarrow> gateway" where
  "responseHandler st connId localSocket ri publicPort data =
     (if length data \<ge> 8 then
        (case readUInt16BE data 6 of
           None \<Rightarrow> st
         | Some responseLength \<Rightarrow>
             if length data \<ge> 8 + responseLength then
               let responseMsg = slice data 8 (8 + responseLength);
                   st1 = (if publicPort \<in> activeUdpServers st
                          then broadcastLog Info ''UDP response sent back''
                                 (st\<lparr>udpSent := udpSent st @ [(publicPort, ri, responseMsg)],
                                     connectionStats := (connectionStats st)
                                       \<lparr>totalDataTransferred :=
                                          totalDataTransferred (connectionStats st)
                                          + length responseMsg\<rparr>\<rparr>)
                          else st)
               in returnToPool connId localSocket publicPort st1
             else st)
      else st)"

definition udpTimeout :: "gateway \<Rightarrow> nat \<Rightarrow> sock \<Rightarrow> port \<Rightarrow> gateway" where
  "udpTimeout st connId localSocket publicPort =
     (if activeConnections st connId \<noteq> None
      then broadcastLog Info ''UDP connection cleaned up after timeout''
             (returnToPool connId localSocket publicPort st)
      else st)"

section \<open>Gateway: TCP pairing\<close>

text \<open>\<^verbatim>\<open>establishConnection\<close> (lines 1084-1184), up to the wiring of the two sockets.\<close>

definition establishConnection ::
  "gateway \<Rightarrow> sock \<Rightarrow> sock \<Rightarrow> nat \<Rightarrow> port \<Rightarrow> port \<Rightarrow> gateway" where
  "establishConnection st externalSocket localSocket connId publicPort localPort =
     (let st1 = broadcastLog Success ''proxy connection established'' st;
          connectionData = \<lparr>cd_id = connId, cd_publicPort = publicPort, cd_localPort = localPort,
                             cd_bytesTransferred = 0, cd_isUDP = False\<rparr>
      in st1\<lparr>activeConnections := (activeConnections st1)(connId \<mapsto> connectionData),
             connectionStats := (connectionStats st1)
               \<lparr>activeCount := activeCount (connectionStats st1) + 1\<rparr>,
             forwarding := forwarding st1 @ [(connId, externalSocket, localSocket)]\<rparr>)"

text \<open>
  The loop of \<^verbatim>\<open>tryMatchConnections\<close> (lines 1058-1076; the same loop is lines 83-105 of
  server.js): both \<^verbatim>\<open>shift\<close>s come first, then the two \<^verbatim>\<open>destroyed\<close> tests, each of which
  ends the iteration with \<^verbatim>\<open>continue\<close>.
\<close>

fun matchLoop ::
  "gateway \<Rightarrow> port \<Rightarrow> connection_info list \<Rightarrow> sock list
     \<Rightarrow> gateway \<times> connection_info list \<times> sock list" where
  "matchLoop st publicPort (connectionInfo # queue) (localSocket # sockets) =
     (if ci_socket connectionInfo \<in> destroyed st
      then matchLoop (broadcastLog Warning ''external connection is gone, trying the next'' st)
             publicPort queue sockets
      else if localSocket \<in> destroyed st
      then matchLoop (broadcastLog Warning ''agent connection is gone, trying the next'' st)
             publicPort queue sockets
      else matchLoop
             (establishConnection st (ci_socket connectionInfo) localSocket
                (ci_id connectionInfo) publicPort (ci_localPort connectionInfo))
             publicPort queue sockets)"
| "matchLoop st publicPort queue sockets = (st, queue, sockets)"

definition tryMatchConnections :: "gateway \<Rightarrow> port \<Rightarrow> gateway" where
  "tryMatchConnections st publicPort =
     (case matchLoop st publicPort (getOrEmpty (waitingQueue st) publicPort)
             (getOrEmpty (idleLocalSockets st) publicPort) of
        (st1, queue, sockets) \<Rightarrow>
          st1\<lparr>waitingQueue := (waitingQueue st1)(publicPort \<mapsto> queue),
              idleLocalSockets := (idleLocalSockets st1)(publicPort \<mapsto> sockets)\<rparr>)"

text \<open>\<^verbatim>\<open>handleExternalConnection\<close> (lines 993-1013), up to the call of the pairing.\<close>

definition handleExternalConnection :: "gateway \<Rightarrow> sock \<Rightarrow> port \<Rightarrow> port \<Rightarrow> gateway" where
  "handleExternalConnection st externalSocket publicPort localPort =
     (let connId = Suc (connectionId st);
          st1 = broadcastLog Info ''external user connected''
                  (st\<lparr>connectionId := connId,
                      connectionStats := (connectionStats st)
                        \<lparr>totalConnections := Suc (totalConnections (connectionStats st))\<rparr>\<rparr>);
          connectionInfo = \<lparr>ci_id = connId, ci_socket = externalSocket,
                             ci_publicPort = publicPort, ci_localPort = localPort\<rparr>;
          st2 = st1\<lparr>waitingQueue := (waitingQueue st1)
                      (publicPort \<mapsto> getOrEmpty (waitingQueue st1) publicPort @ [connectionInfo])\<rparr>
      in tryMatchConnections (broadcastLog Info ''external connection queued'' st2) publicPort)"


section \<open>Gateway: the data-plane connection of an Agent\<close>

text \<open>
  The connection handler of \<^verbatim>\<open>localProxyServer\<close> (lines 1187-1274). Its local variables
  \<^verbatim>\<open>headerReceived\<close> and \<^verbatim>\<open>targetPort\<close> live as long as the connection; \<open>timeoutPending\<close> says
  that the 10 s timer set at line 1265 has neither run nor been cleared.
\<close>

record session =
  sess_socket :: sock
  headerReceived :: bool
  targetPort :: "nat option"
  timeoutPending :: bool

definition accepted :: "sock \<Rightarrow> session" where
  "accepted localSocket =
     \<lparr>sess_socket = localSocket, headerReceived = False, targetPort = None,
      timeoutPending = True\<rparr>"

definition destroy :: "sock \<Rightarrow> gateway \<Rightarrow> gateway" where
  "destroy sk st = st\<lparr>destroyed := insert sk (destroyed st)\<rparr>"

text \<open>
  The \<^verbatim>\<open>data\<close> listener (lines 1194-1233). A chunk shorter than 4 bytes that comes before
  the header is left by \<^verbatim>\<open>return\<close>: nothing of it is kept.
\<close>

definition onData :: "gateway \<Rightarrow> session \<Rightarrow> byte list \<Rightarrow> gateway \<times> session" where
  "onData st s data =
     (if \<not> headerReceived s \<and> length data \<ge> 4 then
        (case readUInt32BE data 0 of
           None \<Rightarrow>
             (destroy (sess_socket s) (broadcastLog Error ''cannot parse the port header'' st), s)
         | Some tp \<Rightarrow>
             let s1 = s\<lparr>targetPort := Some tp, headerReceived := True\<rparr>;
                 st1 = broadcastLog Info ''agent names its target port'' st
             in if tp \<notin> activeServers st1
                then (destroy (sess_socket s)
                        (broadcastLog Warning ''no external server for the port, closing'' st1), s1)
                else
                  let st2 = st1\<lparr>idleLocalSockets := (idleLocalSockets st1)
                                 (tp \<mapsto> getOrEmpty (idleLocalSockets st1) tp @ [sess_socket s])\<rparr>
                  in (tryMatchConnections
                        (broadcastLog Info ''agent connection joins the idle pool'' st2) tp, s1))
      else (st, s))"

text \<open>
  \<^verbatim>\<open>onLocalClose\<close> and \<^verbatim>\<open>onLocalError\<close> (lines 1235-1259) with the second listener of each
  event, which clears the timer (lines 1272-1273).
\<close>

definition removeFromPool :: "level \<Rightarrow> gateway \<Rightarrow> session \<Rightarrow> gateway" where
  "removeFromPool l st s =
     (case targetPort s of
        None \<Rightarrow> st
      | Some tp \<Rightarrow>
          if tp = 0 then st
          else let sockets = getOrEmpty (idleLocalSockets st) tp
               in if sess_socket s \<in> set sockets
                  then broadcastLog l ''idle connection removed from the pool''
                         (st\<lparr>idleLocalSockets := (idleLocalSockets st)
                               (tp \<mapsto> remove1 (sess_socket s) sockets)\<rparr>)
                  else st)"

definition onLocalClose :: "gateway \<Rightarrow> session \<Rightarrow> gateway \<times> session" where
  "onLocalClose st s = (removeFromPool Info st s, s\<lparr>timeoutPending := False\<rparr>)"

definition onLocalError :: "gateway \<Rightarrow> session \<Rightarrow> gateway \<times> session" where
  "onLocalError st s = (removeFromPool Error st s, s\<lparr>timeoutPending := False\<rparr>)"

text \<open>The callback of the 10 s timer (lines 1265-1270), when the timer is still set.\<close>

definition headerTimeout :: "gateway \<Rightarrow> session \<Rightarrow> gateway \<times> session" where
  "headerTimeout st s =
     (if timeoutPending s
      then (if \<not> headerReceived s
            then destroy (sess_socket s)
                   (broadcastLog Warning ''agent sent no port header within 10 s, closing'' st)
            else st,
            s\<lparr>timeoutPending := False\<rparr>)
      else (st, s))"

text \<open>
  What happens on one connection, in order: the events of the socket, each with the time
  in milliseconds since the connection was accepted. A socket emits \<^verbatim>\<open>close\<close> and \<^verbatim>\<open>error\<close>
  when it is already destroyed (its \<^verbatim>\<open>destroyed\<close> flag is set before the listeners run),
  and emits no \<^verbatim>\<open>data\<close> after \<^verbatim>\<open>destroy()\<close>. The timer runs between the events before
  10000 ms and the later ones.
\<close>

datatype event = Data "byte list" | Close | Err

definition deliver :: "gateway \<times> session \<Rightarrow> event \<Rightarrow> gateway \<times> session" where
  "deliver c ev =
     (case c of (st, s) \<Rightarrow>
        (case ev of
           Data d \<Rightarrow> if sess_socket s \<in> destroyed st then (st, s) else onData st s d
         | Close \<Rightarrow> onLocalClose (destroy (sess_socket s) st) s
         | Err \<Rightarrow> onLocalError (destroy (sess_socket s) st) s))"

definition headerTimeoutMs :: nat where
  "headerTimeoutMs = 10000"

definition beforeDeadline :: "(nat \<times> event) list \<Rightarrow> event list" where
  "beforeDeadline evs = map snd (takeWhile (\<lambda>te. fst te < headerTimeoutMs) evs)"

definition afterDeadline :: "(nat \<times> event) list \<Rightarrow> event list" where
  "afterDeadline evs = map snd (dropWhile (\<lambda>te. fst te < headerTimeoutMs) evs)"

definition atDeadline :: "gateway \<Rightarrow> sock \<Rightarrow> (nat \<times> event) list \<Rightarrow> gateway \<times> session" where
  "atDeadline st localSocket evs = foldl deliver (st, accepted localSocket) (beforeDeadline evs)"

definition runSession :: "gateway \<Rightarrow> sock \<Rightarrow> (nat \<times> event) list \<Rightarrow> gateway \<times> session" where
  "runSession st localSocket evs =
     (case atDeadline st localSocket evs of
        (st1, s1) \<Rightarrow> foldl deliver (headerTimeout st1 s1) (afterDeadline evs))"

section \<open>Agent (client-web-server.js, multi-port version with UDP)\<close>

text \<open>
  The port-selection header written on connect (part_001, lines 624-626).
\<close>

definition portHeader :: "port \<Rightarrow> byte list option" where
  "portHeader publicPort = writeUInt32BE publicPort"

text \<open>
  The test at the head of the \<^verbatim>\<open>data\<close> listener of \<^verbatim>\<open>proxySocket\<close> (part_001, lines 629-642):
  the chunk is taken as a datagram of a client when it has 8 bytes or more, address and
  port are not \<^verbatim>\<open>0.0.0.0\<close> and 0, the length field is positive and the chunk holds that
  many bytes after the header. Any other chunk goes on to the TCP branch (\<open>None\<close>).
\<close>

definition clientIPText :: "byte list \<Rightarrow> string" where
  "clientIPText data =
     showNat (unat (data ! 0)) @ ''.'' @ showNat (unat (data ! 1)) @ ''.'' @
     showNat (unat (data ! 2)) @ ''.'' @ showNat (unat (data ! 3))"

definition unwrapUdp :: "byte list \<Rightarrow> (string \<times> nat \<times> byte list) option" where
  "unwrapUdp data =
     (if length data \<ge> 8 then
        (case (readUInt16BE data 4, readUInt16BE data 6) of
           (Some clientPort, Some udpDataLength) \<Rightarrow>
             let clientIP = clientIPText data;
                 isUdpResponse = (clientIP = ''0.0.0.0'' \<and> clientPort = 0)
             in if \<not> isUdpResponse \<and> length data \<ge> 8 + udpDataLength \<and> udpDataLength > 0
                then Some (clientIP, clientPort, slice data 8 (8 + udpDataLength))
                else None
         | _ \<Rightarrow> None)
      else None)"

text \<open>
  \<^verbatim>\<open>handleResponse\<close> (part_001, lines 663-705): the reply of the local service is written
  to the Gateway behind a header whose first four bytes and port field are written as 0
  (the source's comments: "response marker (0 means response)", "port number (set to
  0)"). The closure's \<^verbatim>\<open>responseReceived\<close> flag lets only the first reply through.
\<close>

record exchange =
  responseReceived :: bool
  proxyDestroyed :: bool
  proxyWritten :: "byte list list"
  bytesTransferred :: nat

definition responseEnvelope :: "byte list \<Rightarrow> byte list option" where
  "responseEnvelope responseMsg =
     (case (writeUInt8 0, writeUInt8 0, writeUInt8 0, writeUInt8 0,
            writeUInt16BE 0, writeUInt16BE (length responseMsg)) of
        (Some b0, Some b1, Some b2, Some b3, Some p, Some n) \<Rightarrow>
          Some ([b0, b1, b2, b3] @ p @ n @ responseMsg)
      | _ \<Rightarrow> None)"

definition handleResponse :: "exchange \<Rightarrow> byte list \<Rightarrow> exchange option" where
  "handleResponse x responseMsg =
     (if responseReceived x then Some x
      else
        let x1 = x\<lparr>responseReceived := True\<rparr>
        in case responseEnvelope responseMsg of
             None \<Rightarrow> None
           | Some wrappedResponse \<Rightarrow>
               if \<not> proxyDestroyed x1
               then Some (x1\<lparr>proxyWritten := proxyWritten x1 @ [wrappedResponse],
                             bytesTransferred := bytesTransferred x1 + length responseMsg\<rparr>)
               else Some x1)"

section \<open>Reference notions and example states\<close>

text \<open>
  The notions the properties below are stated with, in the words of the specification,
  and the concrete states at which they are evaluated.
\<close>

text \<open>A port is covered by an enabled PortSpec: it lies in an enabled range or is an enabled
  specific port.\<close>

definition coveredByEnabledSpec :: "config \<Rightarrow> port \<Rightarrow> bool" where
  "coveredByEnabledSpec cfg p =
     (list_ex (\<lambda>r. range_enabled r \<and> startPort r \<le> p \<and> p \<le> endPort r) (portRanges cfg) \<or>
      list_ex (\<lambda>s. spec_enabled s \<and> spec_port s = p) (specificPorts cfg))"

text \<open>
  A preferred port that can be granted: it is given, covered by an enabled PortSpec, and
  neither bound nor reserved.
\<close>

definition preferredUsable :: "gateway \<Rightarrow> nat option \<Rightarrow> port \<Rightarrow> bool" where
  "preferredUsable st preferredPort pp =
     (preferredPort = Some pp \<and> isPreferredAvailable st pp \<and> \<not> isPortOccupied st pp)"

text \<open>The ports of the configuration are port numbers other than 0.\<close>

definition portsNonzero :: "config \<Rightarrow> bool" where
  "portsNonzero cfg = list_all (\<lambda>e. port e \<noteq> 0) (getAvailablePorts cfg)"

definition requestedProtocol :: "string option \<Rightarrow> string" where
  "requestedProtocol protocolOpt = (case protocolOpt of None \<Rightarrow> ''both'' | Some p \<Rightarrow> p)"

definition allListenersThrow :: "string \<Rightarrow> bind_outcome \<Rightarrow> bind_outcome \<Rightarrow> bool" where
  "allListenersThrow protocol tcpBind udpBind =
     (protocol = ''both'' \<and> tcpBind = Throws \<and> udpBind = Throws)"

text \<open>
  A configuration with the default web and data-plane ports, whose first range is not
  its lowest, and a Gateway that has just started with it.
\<close>

definition exampleConfig :: config where
  "exampleConfig =
     \<lparr>server = \<lparr>webPort = 3000, localProxyPort = 9000\<rparr>,
      portRanges =
        [\<lparr>range_name = ''high'', startPort = 30000, endPort = 30002, range_enabled = True\<rparr>,
         \<lparr>range_name = ''low'', startPort = 20000, endPort = 20001, range_enabled = True\<rparr>,
         \<lparr>range_name = ''off'', startPort = 10000, endPort = 10001, range_enabled = False\<rparr>],
      specificPorts =
        [\<lparr>spec_name = ''web'', spec_port = 3000, spec_enabled = True\<rparr>,
         \<lparr>spec_name = ''mc'', spec_port = 25565, spec_enabled = True\<rparr>]\<rparr>"

definition emptyStats :: stats where
  "emptyStats = \<lparr>totalConnections = 0, activeCount = 0, totalDataTransferred = 0\<rparr>"

definition freshGateway :: "config \<Rightarrow> gateway" where
  "freshGateway cfg =
     \<lparr>config = cfg, connectionId = 0, waitingQueue = Map.empty, idleLocalSockets = Map.empty,
      activeConnections = Map.empty, activeServers = {}, activeUdpServers = {},
      portMappings = Map.empty, portProtocols = Map.empty, connectionStats = emptyStats,
      destroyed = {}, written = (\<lambda>_. []), forwarding = [], udpPending = [], udpSent = [],
      logs = []\<rparr>"


text \<open>The idle pool of a public port, empty when the port has no entry.\<close>

abbreviation pool :: "gateway \<Rightarrow> port \<Rightarrow> sock list" where
  "pool st pp \<equiv> getOrEmpty (idleLocalSockets st) pp"

text \<open>
  Two states of the pairing on port 25565, each with a socket that is destroyed and whose
  \<^verbatim>\<open>close\<close> listener has not run yet. In the first the oldest waiting user (socket 101)
  has gone and a second user (socket 102) waits, with one Agent session (socket 201)
  idle; in the second one user (socket 102) waits and the older of two idle Agent
  sessions (socket 202) has gone.
\<close>

definition pairingGateway :: gateway where
  "pairingGateway =
     (freshGateway exampleConfig)
       \<lparr>waitingQueue :=
          [25565 \<mapsto> [\<lparr>ci_id = 1, ci_socket = 101, ci_publicPort = 25565, ci_localPort = 7\<rparr>,
                       \<lparr>ci_id = 2, ci_socket = 102, ci_publicPort = 25565, ci_localPort = 7\<rparr>]],
        idleLocalSockets := [25565 \<mapsto> [201]],
        activeServers := {25565}, portMappings := [7 \<mapsto> 25565],
        destroyed := {101}\<rparr>"

definition pairingGateway2 :: gateway where
  "pairingGateway2 =
     (freshGateway exampleConfig)
       \<lparr>waitingQueue :=
          [25565 \<mapsto> [\<lparr>ci_id = 2, ci_socket = 102, ci_publicPort = 25565, ci_localPort = 7\<rparr>]],
        idleLocalSockets := [25565 \<mapsto> [202, 203]],
        activeServers := {25565}, portMappings := [7 \<mapsto> 25565],
        destroyed := {202}\<rparr>"

text \<open>
  A Gateway with a TCP listener on port 25565, and the events of Agent connections to
  it: the four bytes of the header of port 25565 arriving as one byte and then three;
  the same followed by a full header after 20 s; a header in one chunk; a connection
  closed by the Agent after one byte.
\<close>

definition boundGateway :: gateway where
  "boundGateway = (freshGateway exampleConfig)
     \<lparr>activeServers := {25565}, portMappings := [7 \<mapsto> 25565],
      waitingQueue := [25565 \<mapsto> []], idleLocalSockets := [25565 \<mapsto> []]\<rparr>"

definition splitHeader :: "(nat \<times> event) list" where
  "splitHeader = [(5, Data [0]), (6, Data [0, 0x63, 0xDD])]"

definition lateHeader :: "(nat \<times> event) list" where
  "lateHeader = [(5, Data [0]), (6, Data [0, 0x63, 0xDD]), (20000, Data [0, 0, 0x63, 0xDD])]"

definition promptHeader :: "(nat \<times> event) list" where
  "promptHeader = [(5, Data [0, 0, 0x63, 0xDD])]"

definition closedEarly :: "(nat \<times> event) list" where
  "closedEarly = [(5, Data [0]), (7, Close)]"

text \<open>
  Kinds of events: a chunk too short to be taken as the header; any event but a chunk of
  4 bytes or more; a chunk. \<open>timerOutcome\<close> is the state of the Gateway once the 10 s
  timer has had its turn.
\<close>

definition shortChunk :: "event \<Rightarrow> bool" where
  "shortChunk ev = (case ev of Data d \<Rightarrow> length d < 4 | _ \<Rightarrow> False)"

definition noHeaderChunk :: "event \<Rightarrow> bool" where
  "noHeaderChunk ev = (case ev of Data d \<Rightarrow> length d < 4 | _ \<Rightarrow> True)"

definition isData :: "event \<Rightarrow> bool" where
  "isData ev = (case ev of Data d \<Rightarrow> True | _ \<Rightarrow> False)"

definition timerOutcome :: "gateway \<Rightarrow> sock \<Rightarrow> (nat \<times> event) list \<Rightarrow> gateway" where
  "timerOutcome st localSocket evs =
     (case atDeadline st localSocket evs of (st1, s1) \<Rightarrow> fst (headerTimeout st1 s1))"

text \<open>
  Decimal digits, and the dotted text of an IPv4 address with the octets \<open>a\<close>, \<open>b\<close>, \<open>c\<close>,
  \<open>d\<close>, which is what Node reports as \<^verbatim>\<open>rinfo.address\<close>.
\<close>

definition isDecimal :: "char \<Rightarrow> bool" where
  "isDecimal c = (48 \<le> (of_char c :: nat) \<and> (of_char c :: nat) \<le> 57)"

definition dotted :: "nat \<Rightarrow> nat \<Rightarrow> nat \<Rightarrow> nat \<Rightarrow> string" where
  "dotted a b c d = showNat a @ ''.'' @ showNat b @ ''.'' @ showNat c @ ''.'' @ showNat d"

text \<open>
  The envelope with an all-zero address and port in front of a payload, and an exchange
  of the Agent that has not answered yet.
\<close>

definition zeroEnvelope :: "byte list \<Rightarrow> byte list" where
  "zeroEnvelope responseMsg =
     [0, 0, 0, 0, 0, 0, of_nat (length responseMsg div 256), of_nat (length responseMsg mod 256)]
       @ responseMsg"

definition freshExchange :: exchange where
  "freshExchange =
     \<lparr>responseReceived = False, proxyDestroyed = False, proxyWritten = [], bytesTransferred = 0\<rparr>"

text \<open>
  A Gateway with the listeners of a \<^verbatim>\<open>'both'\<close> mapping on port 27015 whose idle pool holds
  a session that has gone (socket 201) before two live ones, one whose pool holds only
  the session that has gone, and a player sending from 10.0.0.2:5000.
\<close>

definition udpGateway :: gateway where
  "udpGateway = (freshGateway exampleConfig)
     \<lparr>activeServers := {27015}, activeUdpServers := {27015},
      portMappings := [27015 \<mapsto> 27015], portProtocols := [27015 \<mapsto> ''both''],
      waitingQueue := [27015 \<mapsto> []], idleLocalSockets := [27015 \<mapsto> [201, 202, 203]],
      destroyed := {201}\<rparr>"

definition deadPoolGateway :: gateway where
  "deadPoolGateway = (freshGateway exampleConfig)
     \<lparr>activeServers := {27015}, activeUdpServers := {27015},
      portMappings := [27015 \<mapsto> 27015], portProtocols := [27015 \<mapsto> ''both''],
      waitingQueue := [27015 \<mapsto> []], idleLocalSockets := [27015 \<mapsto> [201]],
      destroyed := {201}\<rparr>"

definition player :: rinfo where
  "player = \<lparr>address = ''10.0.0.2'', rport = 5000\<rparr>"

text \<open>
  The number of calls of \<^verbatim>\<open>handleUdpMessage\<close> between two states: every call takes one
  \<^verbatim>\<open>connId\<close>, and nothing else in the dispatch does.
\<close>

definition calls :: "gateway \<Rightarrow> gateway \<Rightarrow> nat" where
  "calls st st1 = connectionId st1 - connectionId st"

definition isForwarded :: "udp_outcome \<Rightarrow> bool" where
  "isForwarded out = (case out of Forwarded c sk \<Rightarrow> True | _ \<Rightarrow> False)"

section \<open>Basic facts about the state\<close>

text \<open>
  The fields of a Gateway that has just started, after a log line, after \<^verbatim>\<open>destroy()\<close>, and
  of the example Gateways of the UDP dispatch.
\<close>

lemma freshGateway_fields:
  "config (freshGateway cfg) = cfg"
  "connectionId (freshGateway cfg) = 0"
  "waitingQueue (freshGateway cfg) = Map.empty"
  "idleLocalSockets (freshGateway cfg) = Map.empty"
  "activeConnections (freshGateway cfg) = Map.empty"
  "activeServers (freshGateway cfg) = {}"
  "activeUdpServers (freshGateway cfg) = {}"
  "portMappings (freshGateway cfg) = Map.empty"
  "portProtocols (freshGateway cfg) = Map.empty"
  "connectionStats (freshGateway cfg) = emptyStats"
  "destroyed (freshGateway cfg) = {}"
  "written (freshGateway cfg) = (\<lambda>_. [])"
  "forwarding (freshGateway cfg) = []"
  "udpPending (freshGateway cfg) = []"
  "udpSent (freshGateway cfg) = []"
  "logs (freshGateway cfg) = []"
  by (simp_all add: freshGateway_def)

lemma broadcastLog_fields:
  "config (broadcastLog l m st) = config st"
  "connectionId (broadcastLog l m st) = connectionId st"
  "waitingQueue (broadcastLog l m st) = waitingQueue st"
  "idleLocalSockets (broadcastLog l m st) = idleLocalSockets st"
  "activeConnections (broadcastLog l m st) = activeConnections st"
  "activeServers (broadcastLog l m st) = activeServers st"
  "activeUdpServers (broadcastLog l m st) = activeUdpServers st"
  "portMappings (broadcastLog l m st) = portMappings st"
  "portProtocols (broadcastLog l m st) = portProtocols st"
  "connectionStats (broadcastLog l m st) = connectionStats st"
  "destroyed (broadcastLog l m st) = destroyed st"
  "written (broadcastLog l m st) = written st"
  "forwarding (broadcastLog l m st) = forwarding st"
  "udpPending (broadcastLog l m st) = udpPending st"
  "udpSent (broadcastLog l m st) = udpSent st"
  "logs (broadcastLog l m st) = logs st @ [(l, m)]"
  by (simp_all add: broadcastLog_def)

lemma destroyed_destroy: "destroyed (destroy sk st) = insert sk (destroyed st)"
  by (simp add: destroy_def)

lemma udpGateway_fields:
  "getOrEmpty (idleLocalSockets udpGateway) 27015 = [201, 202, 203]"
  "destroyed udpGateway = {201}"
  "connectionId udpGateway = 0"
  "written udpGateway = (\<lambda>_. [])"
  "activeUdpServers udpGateway = {27015}"
  by (simp_all add: udpGateway_def getOrEmpty_def freshGateway_fields)

lemma deadPoolGateway_fields:
  "getOrEmpty (idleLocalSockets deadPoolGateway) 27015 = [201]"
  "destroyed deadPoolGateway = {201}"
  "connectionId deadPoolGateway = 0"
  by (simp_all add: deadPoolGateway_def getOrEmpty_def freshGateway_fields)

section \<open>Properties of the port registry\<close>

lemma example_ports:
  "map port (getAvailablePorts exampleConfig) = [30000, 30001, 30002, 20000, 20001, 3000, 25565]"
  by (simp add: getAvailablePorts_def exampleConfig_def expandRange_def expandSpecific_def)

lemma map_port_expandRange:
  "map port (expandRange r) = (if range_enabled r then [startPort r ..< Suc (endPort r)] else [])"
  by (simp add: expandRange_def comp_def)

lemma map_port_expandSpecific:
  "map port (expandSpecific s) = (if spec_enabled s then [spec_port s] else [])"
  by (simp add: expandSpecific_def)

lemma port_ranges_covered:
  "(p \<in> set (map port (concat (map expandRange rs)))) =
     list_ex (\<lambda>r. range_enabled r \<and> startPort r \<le> p \<and> p \<le> endPort r) rs"
  by (induction rs) (auto simp: map_port_expandRange)

lemma port_specifics_covered:
  "(p \<in> set (map port (concat (map expandSpecific ss)))) =
     list_ex (\<lambda>s. spec_enabled s \<and> spec_port s = p) ss"
  by (induction ss) (auto simp: map_port_expandSpecific)

lemma port_getAvailablePorts:
  "(p \<in> set (map port (getAvailablePorts cfg))) = coveredByEnabledSpec cfg p"
  using port_ranges_covered [of p "portRanges cfg"] port_specifics_covered [of p "specificPorts cfg"]
  by (simp add: getAvailablePorts_def coveredByEnabledSpec_def)

lemma enabled_getAvailablePorts: "e \<in> set (getAvailablePorts cfg) \<Longrightarrow> enabled e"
  by (auto simp: getAvailablePorts_def expandRange_def expandSpecific_def split: if_splits)

text \<open>
  Claim C8, as the code has it: a port is returned by \<^verbatim>\<open>GET /api/ports/available\<close> exactly
  when it is covered by an enabled PortSpec. Bound and reserved ports are not taken out
  of the listing; only the allocation filters them.
\<close>

theorem listing_is_enabled_specs:
  "(p \<in> set (map port (apiPortsAvailable st))) = coveredByEnabledSpec (config st) p"
  using port_getAvailablePorts [of p "config st"] by (simp add: apiPortsAvailable_def)

text \<open>Claim C8, the listing at the example configuration.\<close>

theorem listing_witness:
  "(25565 \<in> set (map port (apiPortsAvailable (freshGateway exampleConfig)))) \<and>
   coveredByEnabledSpec (config (freshGateway exampleConfig)) 25565"
  using listing_is_enabled_specs [of 25565 "freshGateway exampleConfig"]
  by (simp add: coveredByEnabledSpec_def freshGateway_def exampleConfig_def)

text \<open>
  Claim C8 as stated fails: port 3000 is the Gateway's own web port, hence reserved, and
  the listing returns it.
\<close>

theorem listing_counterexample:
  "3000 \<in> set (map port (apiPortsAvailable (freshGateway exampleConfig))) \<and>
   isPortOccupied (freshGateway exampleConfig) 3000"
proof -
  have "config (freshGateway exampleConfig) = exampleConfig"
    by (simp add: freshGateway_def)
  moreover have "webPort (server exampleConfig) = 3000"
    by (simp add: exampleConfig_def)
  ultimately show ?thesis
    by (simp add: apiPortsAvailable_def example_ports isPortOccupied_def)
qed


lemma isPreferredAvailable_iff:
  "isPreferredAvailable st pp = (pp \<in> set (map port (getAvailablePorts (config st))))"
  by (auto simp: isPreferredAvailable_def list_ex_iff enabled_getAvailablePorts)

lemma unoccupied_member:
  "(e \<in> set (unoccupiedPorts st)) =
     (e \<in> set (getAvailablePorts (config st)) \<and> \<not> isPortOccupied st (port e))"
  by (auto simp: unoccupiedPorts_def enabled_getAvailablePorts)

lemma preferredUsable_unoccupied:
  "preferredUsable st preferredPort pp \<Longrightarrow> unoccupiedPorts st \<noteq> []"
proof -
  assume "preferredUsable st preferredPort pp"
  then obtain e where "e \<in> set (getAvailablePorts (config st))" "port e = pp"
    "\<not> isPortOccupied st pp"
    by (auto simp: preferredUsable_def isPreferredAvailable_iff)
  then have "e \<in> set (unoccupiedPorts st)" by (simp add: unoccupied_member)
  then show ?thesis by auto
qed

lemma preferredUsable_nonzero:
  "portsNonzero (config st) \<Longrightarrow> preferredUsable st preferredPort pp \<Longrightarrow> pp \<noteq> 0"
  by (auto simp: portsNonzero_def preferredUsable_def isPreferredAvailable_iff list_all_iff)

lemma selectPort_preferred:
  "portsNonzero (config st) \<Longrightarrow> preferredUsable st preferredPort pp \<Longrightarrow>
   selectPort st preferredPort = Some pp"
  using preferredUsable_nonzero [of st preferredPort pp]
  by (simp add: selectPort_def preferredUsable_def truthy_def)

lemma selectPort_first:
  "\<not> (\<exists>pp. preferredUsable st preferredPort pp) \<Longrightarrow>
   selectPort st preferredPort =
     (case unoccupiedPorts st of [] \<Rightarrow> None | e # _ \<Rightarrow> Some (port e))"
  by (cases preferredPort) (auto simp: selectPort_def preferredUsable_def truthy_def split: list.splits)

lemma selectPort_unoccupied:
  "selectPort st preferredPort = Some p \<Longrightarrow> p \<in> set (map port (unoccupiedPorts st))"
proof (cases "\<exists>pp. preferredUsable st preferredPort pp")
  case False
  assume "selectPort st preferredPort = Some p"
  with False show ?thesis
    by (auto simp: selectPort_first split: list.splits)
next
  case True
  assume sel: "selectPort st preferredPort = Some p"
  from True obtain pp where u: "preferredUsable st preferredPort pp" by blast
  then obtain e where e: "e \<in> set (unoccupiedPorts st)" "port e = pp"
    by (auto simp: preferredUsable_def isPreferredAvailable_iff unoccupied_member)
  from sel u have "p = pp \<or> (\<exists>e xs. unoccupiedPorts st = e # xs \<and> port e = p)"
    by (auto simp: selectPort_def preferredUsable_def truthy_def split: if_splits list.splits)
  with e show ?thesis by force
qed

lemma selectPort_None:
  "(selectPort st preferredPort = None) = (unoccupiedPorts st = [])"
proof (cases "\<exists>pp. preferredUsable st preferredPort pp")
  case False
  then show ?thesis by (simp add: selectPort_first split: list.splits)
next
  case True
  then obtain pp where u: "preferredUsable st preferredPort pp" by blast
  then have "unoccupiedPorts st \<noteq> []" by (rule preferredUsable_unoccupied)
  then show ?thesis
    by (auto simp: selectPort_def truthy_def split: list.splits option.splits)
qed

lemma createPortMapping_unoccupied:
  "\<not> isPortOccupied st p \<Longrightarrow>
   fst (createPortMapping st localPort p protocol tcpBind udpBind) =
     (\<not> allListenersThrow protocol tcpBind udpBind)"
  by (auto simp: createPortMapping_def isPortOccupied_def allListenersThrow_def Let_def
        wantsTcp_def wantsUdp_def)

lemma allocate_response:
  "fst (allocate st localPort preferredPort protocolOpt tcpBind udpBind) =
     (case selectPort st preferredPort of
        None \<Rightarrow> NoAvailablePort
      | Some p \<Rightarrow>
          if p = 0 then NoAvailablePort
          else if fst (createPortMapping st localPort p (requestedProtocol protocolOpt)
                         tcpBind udpBind)
          then AllocSuccess localPort p (requestedProtocol protocolOpt)
          else CreateMappingFailed)"
  by (simp add: allocate_def requestedProtocol_def Let_def split: option.splits prod.splits bool.splits)

lemma example_unoccupied:
  "map port (unoccupiedPorts (freshGateway exampleConfig)) = [30000, 30001, 30002, 20000, 20001, 25565]"
  by (simp add: unoccupiedPorts_def getAvailablePorts_def exampleConfig_def expandRange_def
      expandSpecific_def isPortOccupied_def freshGateway_def)

lemma example_portsNonzero: "portsNonzero (config (freshGateway exampleConfig))"
  by (simp add: portsNonzero_def freshGateway_fields getAvailablePorts_def exampleConfig_def
      expandRange_def expandSpecific_def)

text \<open>
  Claim C1, as the code has it, for a configuration whose ports are not 0: a preferred
  port that is given, covered by an enabled PortSpec and neither bound nor reserved is
  the port selected; otherwise the selected port is the first one, in the order of the
  configuration (the enabled ranges as listed, each ascending, then the enabled specific
  ports), that is neither bound nor reserved; the answer is the no-port-available error
  exactly when there is no such port; and the selected port is the one answered, unless
  the mapping cannot be created because both listeners throw.
\<close>

theorem allocate_preferred_else_first:
  assumes nz: "portsNonzero (config st)"
  shows "(preferredUsable st preferredPort pp \<longrightarrow> selectPort st preferredPort = Some pp) \<and>
         (\<not> (\<exists>q. preferredUsable st preferredPort q) \<longrightarrow>
            selectPort st preferredPort =
              (case unoccupiedPorts st of [] \<Rightarrow> None | e # _ \<Rightarrow> Some (port e))) \<and>
         ((fst (allocate st localPort preferredPort protocolOpt tcpBind udpBind) = NoAvailablePort)
            = (unoccupiedPorts st = [])) \<and>
         (selectPort st preferredPort = Some p \<longrightarrow>
            fst (allocate st localPort preferredPort protocolOpt tcpBind udpBind) =
              (if allListenersThrow (requestedProtocol protocolOpt) tcpBind udpBind
               then CreateMappingFailed
               else AllocSuccess localPort p (requestedProtocol protocolOpt)))"
proof (intro conjI impI)
  assume "preferredUsable st preferredPort pp"
  with nz show "selectPort st preferredPort = Some pp" by (rule selectPort_preferred)
next
  assume "\<not> (\<exists>q. preferredUsable st preferredPort q)"
  then show "selectPort st preferredPort =
      (case unoccupiedPorts st of [] \<Rightarrow> None | e # _ \<Rightarrow> Some (port e))"
    by (rule selectPort_first)
next
  have sel: "selectPort st preferredPort = Some q \<Longrightarrow> q \<noteq> 0 \<and> \<not> isPortOccupied st q" for q
  proof -
    assume "selectPort st preferredPort = Some q"
    then have "q \<in> set (map port (unoccupiedPorts st))" by (rule selectPort_unoccupied)
    then obtain e where "e \<in> set (unoccupiedPorts st)" "port e = q" by auto
    with nz show ?thesis
      by (auto simp: unoccupied_member portsNonzero_def list_all_iff)
  qed
  show "(fst (allocate st localPort preferredPort protocolOpt tcpBind udpBind) = NoAvailablePort)
          = (unoccupiedPorts st = [])"
  proof (cases "selectPort st preferredPort")
    case None
    then show ?thesis using selectPort_None [of st preferredPort]
      by (simp add: allocate_response)
  next
    case (Some q)
    then have "unoccupiedPorts st \<noteq> []" using selectPort_None [of st preferredPort] by simp
    with Some sel [of q] show ?thesis by (simp add: allocate_response)
  qed
  show "fst (allocate st localPort preferredPort protocolOpt tcpBind udpBind) =
          (if allListenersThrow (requestedProtocol protocolOpt) tcpBind udpBind
           then CreateMappingFailed
           else AllocSuccess localPort p (requestedProtocol protocolOpt))"
    if "selectPort st preferredPort = Some p"
    using that sel [of p]
    by (simp add: allocate_response createPortMapping_unoccupied)
qed

text \<open>Claim C1, the selection at the example configuration, with and without a preferred
  port.\<close>

theorem allocate_preferred_else_first_witness:
  "portsNonzero (config (freshGateway exampleConfig)) \<and>
   preferredUsable (freshGateway exampleConfig) (Some 25565) 25565 \<and>
   selectPort (freshGateway exampleConfig) (Some 25565) = Some 25565 \<and>
   fst (allocate (freshGateway exampleConfig) 7 (Some 25565) (Some ''tcp'') Listens Listens)
     = AllocSuccess 7 25565 ''tcp'' \<and>
   \<not> (\<exists>q. preferredUsable (freshGateway exampleConfig) None q) \<and>
   selectPort (freshGateway exampleConfig) None = Some 30000 \<and>
   unoccupiedPorts (freshGateway exampleConfig) \<noteq> []"
proof -
  have nz: "portsNonzero (config (freshGateway exampleConfig))"
    by (rule example_portsNonzero)
  have pu: "preferredUsable (freshGateway exampleConfig) (Some 25565) 25565"
    by (simp add: preferredUsable_def isPreferredAvailable_iff freshGateway_fields example_ports
        isPortOccupied_def)
       (simp add: exampleConfig_def)
  have no: "\<not> (\<exists>q. preferredUsable (freshGateway exampleConfig) None q)"
    by (simp add: preferredUsable_def)
  have un: "unoccupiedPorts (freshGateway exampleConfig) \<noteq> []"
    using example_unoccupied by auto
  have hd: "(case unoccupiedPorts (freshGateway exampleConfig) of [] \<Rightarrow> None
             | e # _ \<Rightarrow> Some (port e)) = Some 30000"
    using example_unoccupied by (auto split: list.splits)
  show ?thesis
    using nz pu no un hd
      allocate_preferred_else_first [OF nz, of "Some 25565" 25565 7 "Some ''tcp''" Listens
        Listens 25565]
      allocate_preferred_else_first [OF nz, of None 0 7 None Listens Listens 30000]
    by (simp add: allListenersThrow_def requestedProtocol_def)
qed

text \<open>
  Claim C1 as stated fails: with no preferred port the Gateway answers 30000, the first
  port of the first configured range, although 20000 is available and smaller.
\<close>

theorem allocate_counterexample:
  "fst (allocate (freshGateway exampleConfig) 25565 None None Listens Listens)
     = AllocSuccess 25565 30000 ''both'' \<and>
   20000 \<in> set (map port (unoccupiedPorts (freshGateway exampleConfig))) \<and>
   (20000 :: nat) < 30000"
proof -
  have "selectPort (freshGateway exampleConfig) None = Some 30000"
    using example_unoccupied by (auto simp: selectPort_def truthy_def split: list.splits)
  moreover have "\<not> isPortOccupied (freshGateway exampleConfig) 30000"
    by (simp add: isPortOccupied_def freshGateway_def exampleConfig_def)
  ultimately show ?thesis
    by (simp add: allocate_response createPortMapping_unoccupied allListenersThrow_def
        requestedProtocol_def example_unoccupied)
qed


section \<open>Properties of the listener lifecycle\<close>




section \<open>Properties of the TCP pairing\<close>

text \<open>
  Claim C3. The pairing loop takes one waiting user and one idle session out of their
  queues before it looks at either, and \<^verbatim>\<open>continue\<close> puts neither back. With the first
  user gone, the live session 201 leaves the pool unpaired while user 102 keeps
  waiting; with the first session gone, the live user 102 leaves the queue unpaired
  while session 203 stays idle. Neither is destroyed, and no pair is wired.
\<close>

theorem tryMatchConnections_loses_open_endpoint:
  "getOrEmpty (idleLocalSockets (tryMatchConnections pairingGateway 25565)) 25565 = [] \<and>
   map ci_socket (getOrEmpty (waitingQueue (tryMatchConnections pairingGateway 25565)) 25565)
     = [102] \<and>
   forwarding (tryMatchConnections pairingGateway 25565) = [] \<and>
   201 \<notin> destroyed (tryMatchConnections pairingGateway 25565) \<and>
   getOrEmpty (waitingQueue (tryMatchConnections pairingGateway2 25565)) 25565 = [] \<and>
   getOrEmpty (idleLocalSockets (tryMatchConnections pairingGateway2 25565)) 25565 = [203] \<and>
   forwarding (tryMatchConnections pairingGateway2 25565) = [] \<and>
   102 \<notin> destroyed (tryMatchConnections pairingGateway2 25565)"
  by (simp add: tryMatchConnections_def pairingGateway_def pairingGateway2_def getOrEmpty_def
      broadcastLog_def freshGateway_fields)

section \<open>Properties of the Agent's data-plane connection\<close>

lemma deliver_Data:
  "deliver (st, s) (Data d) = (if sess_socket s \<in> destroyed st then (st, s) else onData st s d)"
  by (simp add: deliver_def)

lemma deliver_Close:
  "deliver (st, s) Close = onLocalClose (destroy (sess_socket s) st) s"
  by (simp add: deliver_def)

lemma deliver_Err:
  "deliver (st, s) Err = onLocalError (destroy (sess_socket s) st) s"
  by (simp add: deliver_def)

lemma snd_onData:
  "snd (onData st s d) =
     (if \<not> headerReceived s \<and> 4 \<le> length d
      then s\<lparr>targetPort := readUInt32BE d 0, headerReceived := True\<rparr> else s)"
  by (simp add: onData_def readUInt32BE_def Let_def)

text \<open>
  A header that arrives in one chunk and names a port without a TCP listener: the socket
  is destroyed at once, nothing is written to it, and it joins no pool.
\<close>

lemma unbound_port_closed:
  assumes "\<not> headerReceived s" "4 \<le> length d" "readUInt32BE d 0 = Some tp"
    "tp \<notin> activeServers st"
  shows "sess_socket s \<in> destroyed (fst (onData st s d)) \<and>
         written (fst (onData st s d)) = written st \<and>
         idleLocalSockets (fst (onData st s d)) = idleLocalSockets st"
  using assms by (simp add: onData_def broadcastLog_fields destroy_def)

text \<open>
  Claim C4. The four bytes 00 00 63 DD are the header of port 25565, which has a TCP
  listener. When they arrive as a chunk of one byte and a chunk of three, neither chunk
  is kept: at the deadline the Gateway is as it was when the connection was accepted,
  the connection is then destroyed by the timer, and it never joins the idle pool.
\<close>

theorem split_header_never_read:
  "portHeader 25565 = Some ([0] @ [0, 0x63, 0xDD]) \<and>
   25565 \<in> activeServers boundGateway \<and>
   atDeadline boundGateway 9 splitHeader = (boundGateway, accepted 9) \<and>
   9 \<in> destroyed (fst (runSession boundGateway 9 splitHeader)) \<and>
   idleLocalSockets (fst (runSession boundGateway 9 splitHeader)) 25565 = Some []"
  by (simp add: portHeader_def writeUInt32BE_def boundGateway_def runSession_def atDeadline_def
      beforeDeadline_def afterDeadline_def splitHeader_def headerTimeoutMs_def deliver_def
      onData_def accepted_def headerTimeout_def destroy_def broadcastLog_def freshGateway_fields)

lemma destroyed_removeFromPool: "destroyed (removeFromPool l st s) = destroyed st"
  by (simp add: removeFromPool_def broadcastLog_fields Let_def split: option.splits)

lemma snd_onLocalClose: "snd (onLocalClose st s) = s\<lparr>timeoutPending := False\<rparr>"
  by (simp add: onLocalClose_def)

lemma snd_onLocalError: "snd (onLocalError st s) = s\<lparr>timeoutPending := False\<rparr>"
  by (simp add: onLocalError_def)

lemma destroyed_onLocalClose: "destroyed (fst (onLocalClose st s)) = destroyed st"
  by (simp add: onLocalClose_def destroyed_removeFromPool)

lemma destroyed_onLocalError: "destroyed (fst (onLocalError st s)) = destroyed st"
  by (simp add: onLocalError_def destroyed_removeFromPool)

lemmas deliver_event = deliver_Data deliver_Close deliver_Err

lemmas snd_handler = snd_onData snd_onLocalClose snd_onLocalError

lemmas destroyed_handler = destroyed_onLocalClose destroyed_onLocalError

lemma sess_socket_deliver: "sess_socket (snd (deliver (st, s) ev)) = sess_socket s"
  by (cases ev) (simp_all add: deliver_event snd_handler)

lemma headerReceived_deliver:
  "headerReceived s \<Longrightarrow> headerReceived (snd (deliver (st, s) ev))"
  by (cases ev) (simp_all add: deliver_event snd_handler)

lemma timeoutPending_deliver:
  "\<not> timeoutPending s \<Longrightarrow> \<not> timeoutPending (snd (deliver (st, s) ev))"
  by (cases ev) (simp_all add: deliver_event snd_handler)

lemma closed_clears_timer:
  "ev = Close \<or> ev = Err \<Longrightarrow> \<not> timeoutPending (snd (deliver (st, s) ev))"
  by (auto simp: deliver_event snd_handler)

lemma closed_destroys:
  "ev = Close \<or> ev = Err \<Longrightarrow> sess_socket s \<in> destroyed (fst (deliver (st, s) ev))"
  by (auto simp: deliver_event destroyed_handler destroy_def)

lemma headerReceived_foldl:
  "headerReceived (snd c) \<Longrightarrow> headerReceived (snd (foldl deliver c evs))"
proof (induction evs arbitrary: c)
  case Nil
  then show ?case by simp
next
  case (Cons ev evs)
  from Cons.prems have "headerReceived (snd (deliver c ev))"
    using headerReceived_deliver [of "snd c" "fst c" ev] by simp
  then show ?case using Cons.IH by simp
qed

lemma timeoutPending_foldl:
  "\<not> timeoutPending (snd c) \<Longrightarrow> \<not> timeoutPending (snd (foldl deliver c evs))"
proof (induction evs arbitrary: c)
  case Nil
  then show ?case by simp
next
  case (Cons ev evs)
  from Cons.prems have "\<not> timeoutPending (snd (deliver c ev))"
    using timeoutPending_deliver [of "snd c" "fst c" ev] by simp
  then show ?case using Cons.IH by simp
qed

lemma sess_socket_foldl: "sess_socket (snd (foldl deliver c evs)) = sess_socket (snd c)"
proof (induction evs arbitrary: c)
  case Nil
  then show ?case by simp
next
  case (Cons ev evs)
  have "sess_socket (snd (deliver c ev)) = sess_socket (snd c)"
    using sess_socket_deliver [of "fst c" "snd c" ev] by simp
  then show ?case using Cons.IH [of "deliver c ev"] by simp
qed

lemma short_chunks_ignored:
  "\<not> headerReceived s \<Longrightarrow> list_all shortChunk evs \<Longrightarrow> foldl deliver (st, s) evs = (st, s)"
  by (induction evs) (auto simp: shortChunk_def deliver_Data onData_def split: event.splits)

lemma no_header_invariant:
  "\<not> headerReceived (snd c) \<Longrightarrow> timeoutPending (snd c) \<or> sess_socket (snd c) \<in> destroyed (fst c)
   \<Longrightarrow> list_all noHeaderChunk evs \<Longrightarrow>
   \<not> headerReceived (snd (foldl deliver c evs)) \<and>
   (timeoutPending (snd (foldl deliver c evs)) \<or>
    sess_socket (snd c) \<in> destroyed (fst (foldl deliver c evs)))"
proof (induction evs arbitrary: c)
  case Nil
  then show ?case by simp
next
  case (Cons ev evs)
  obtain st s where c: "c = (st, s)" by (cases c)
  have nh: "\<not> headerReceived (snd (deliver c ev))"
    using Cons.prems c
    by (cases ev) (simp_all add: noHeaderChunk_def deliver_event snd_handler)
  have tp: "timeoutPending (snd (deliver c ev)) \<or>
            sess_socket (snd (deliver c ev)) \<in> destroyed (fst (deliver c ev))"
  proof (cases ev)
    case (Data d)
    with Cons.prems c show ?thesis
      by (auto simp: noHeaderChunk_def deliver_Data onData_def)
  next
    case Close
    then show ?thesis using closed_destroys [of ev s st] c
      by (simp add: sess_socket_deliver)
  next
    case Err
    then show ?thesis using closed_destroys [of ev s st] c
      by (simp add: sess_socket_deliver)
  qed
  have ss: "sess_socket (snd (deliver c ev)) = sess_socket (snd c)"
    using c by (simp add: sess_socket_deliver)
  from Cons.prems have rest: "list_all noHeaderChunk evs" by simp
  show ?case
    using Cons.IH [OF nh tp rest] ss by simp
qed

lemma data_prefix_invariant:
  "\<not> headerReceived s \<Longrightarrow> sess_socket s \<notin> destroyed st \<Longrightarrow> list_all isData evs \<Longrightarrow>
   headerReceived (snd (foldl deliver (st, s) evs)) \<or> foldl deliver (st, s) evs = (st, s)"
proof (induction evs rule: rev_induct)
  case Nil
  then show ?case by simp
next
  case (snoc ev evs)
  then have IH: "headerReceived (snd (foldl deliver (st, s) evs)) \<or>
                 foldl deliver (st, s) evs = (st, s)" by simp
  from snoc.prems obtain d where ev: "ev = Data d" by (cases ev) (auto simp: isData_def)
  from IH show ?case
  proof
    assume h: "headerReceived (snd (foldl deliver (st, s) evs))"
    obtain st1 s1 where c: "foldl deliver (st, s) evs = (st1, s1)"
      by (cases "foldl deliver (st, s) evs")
    with h show ?thesis by (simp add: headerReceived_deliver)
  next
    assume same: "foldl deliver (st, s) evs = (st, s)"
    show ?thesis
    proof (cases "length d \<ge> 4")
      case True
      with snoc.prems same ev show ?thesis
        by (simp add: deliver_Data snd_onData)
    next
      case False
      with snoc.prems same ev show ?thesis
        by (auto simp: deliver_Data onData_def)
    qed
  qed
qed

lemma header_chunk_received:
  assumes "sess_socket s \<notin> destroyed st" "list_all isData pre" "length d \<ge> 4"
  shows "headerReceived (snd (foldl deliver (st, s) (pre @ Data d # post)))"
proof -
  have h: "headerReceived (snd (foldl deliver (st, s) (pre @ [Data d])))"
  proof (cases "headerReceived s")
    case True
    then show ?thesis using headerReceived_foldl [of "(st, s)" "pre @ [Data d]"] by simp
  next
    case False
    then have "headerReceived (snd (foldl deliver (st, s) pre)) \<or>
               foldl deliver (st, s) pre = (st, s)"
      using assms by (simp add: data_prefix_invariant)
    then show ?thesis
    proof
      assume a: "headerReceived (snd (foldl deliver (st, s) pre))"
      obtain st1 s1 where c: "foldl deliver (st, s) pre = (st1, s1)"
        by (cases "foldl deliver (st, s) pre")
      with a show ?thesis by (simp add: headerReceived_deliver)
    next
      assume "foldl deliver (st, s) pre = (st, s)"
      with False assms show ?thesis
        by (simp add: deliver_Data snd_onData)
    qed
  qed
  have "foldl deliver (st, s) (pre @ Data d # post) =
        foldl deliver (foldl deliver (st, s) (pre @ [Data d])) post" by simp
  then show ?thesis using headerReceived_foldl [OF h, of post] by simp
qed

lemma headerTimeout_fires:
  "timeoutPending s \<Longrightarrow> \<not> headerReceived s \<Longrightarrow>
   fst (headerTimeout st s) =
     destroy (sess_socket s)
       (broadcastLog Warning ''agent sent no port header within 10 s, closing'' st)"
  by (simp add: headerTimeout_def)

lemma headerTimeout_idle:
  "headerReceived s \<or> \<not> timeoutPending s \<Longrightarrow> fst (headerTimeout st s) = st"
  by (auto simp: headerTimeout_def)

lemma closed_foldl_clears_timer:
  "Close \<in> set evs \<or> Err \<in> set evs \<Longrightarrow> \<not> timeoutPending (snd (foldl deliver c evs))"
proof -
  assume "Close \<in> set evs \<or> Err \<in> set evs"
  then obtain ev where ev: "ev \<in> set evs" "ev = Close \<or> ev = Err" by auto
  then obtain pre post where sp: "evs = pre @ ev # post" by (meson split_list)
  have "\<not> timeoutPending (snd (deliver (foldl deliver c pre) ev))"
    using closed_clears_timer [OF ev(2), of "fst (foldl deliver c pre)" "snd (foldl deliver c pre)"]
    by simp
  then show ?thesis
    using timeoutPending_foldl [of "deliver (foldl deliver c pre) ev" post] sp by simp
qed

text \<open>
  Claim C9. For the events of one connection, \<open>st\<close> being the Gateway when it is accepted:
  if all that arrives before 10000 ms are chunks shorter than 4 bytes, nothing has
  changed at the deadline and the timer destroys the socket with a warning; if no chunk
  of 4 bytes or more arrives before the deadline, the socket is destroyed once the
  timer has had its turn; if the header was received before the deadline, the timer
  leaves the Gateway as it is; a chunk of 4 bytes or more that arrives before the
  deadline on an open connection, after chunks only, is received as the header; and
  after \<^verbatim>\<open>close\<close> or \<^verbatim>\<open>error\<close> the timer is cleared and leaves the Gateway as it is.
\<close>

theorem header_timeout:
  "(list_all shortChunk (beforeDeadline evs) \<longrightarrow>
      atDeadline st sk evs = (st, accepted sk) \<and>
      timerOutcome st sk evs =
        destroy sk (broadcastLog Warning ''agent sent no port header within 10 s, closing'' st)) \<and>
   (list_all noHeaderChunk (beforeDeadline evs) \<longrightarrow> sk \<in> destroyed (timerOutcome st sk evs)) \<and>
   (headerReceived (snd (atDeadline st sk evs)) \<longrightarrow>
      timerOutcome st sk evs = fst (atDeadline st sk evs)) \<and>
   (sk \<notin> destroyed st \<and> beforeDeadline evs = pre @ Data d # post \<and> list_all isData pre \<and>
    4 \<le> length d \<longrightarrow> headerReceived (snd (atDeadline st sk evs))) \<and>
   (Close \<in> set (beforeDeadline evs) \<or> Err \<in> set (beforeDeadline evs) \<longrightarrow>
      \<not> timeoutPending (snd (atDeadline st sk evs)) \<and>
      timerOutcome st sk evs = fst (atDeadline st sk evs))"
proof (intro conjI impI)
  assume sc: "list_all shortChunk (beforeDeadline evs)"
  show a: "atDeadline st sk evs = (st, accepted sk)"
    using short_chunks_ignored [OF _ sc, of "accepted sk" st]
    by (simp add: atDeadline_def accepted_def)
  show "timerOutcome st sk evs =
        destroy sk (broadcastLog Warning ''agent sent no port header within 10 s, closing'' st)"
    using headerTimeout_fires [of "accepted sk" st]
    by (simp add: timerOutcome_def a) (simp add: accepted_def)
next
  assume nh: "list_all noHeaderChunk (beforeDeadline evs)"
  obtain st1 s1 where c: "atDeadline st sk evs = (st1, s1)" by (cases "atDeadline st sk evs")
  have inv: "\<not> headerReceived s1 \<and> (timeoutPending s1 \<or> sk \<in> destroyed st1)"
    using no_header_invariant [of "(st, accepted sk)" "beforeDeadline evs"] nh c
    by (simp add: atDeadline_def accepted_def)
  have ss: "sess_socket s1 = sk"
    using sess_socket_foldl [of "(st, accepted sk)" "beforeDeadline evs"] c
    by (simp add: atDeadline_def accepted_def)
  show "sk \<in> destroyed (timerOutcome st sk evs)"
  proof (cases "timeoutPending s1")
    case True
    with inv ss show ?thesis
      by (simp add: timerOutcome_def c headerTimeout_fires destroyed_destroy)
  next
    case False
    with inv show ?thesis by (simp add: timerOutcome_def c headerTimeout_idle)
  qed
next
  assume "headerReceived (snd (atDeadline st sk evs))"
  then show "timerOutcome st sk evs = fst (atDeadline st sk evs)"
    by (cases "atDeadline st sk evs") (simp add: timerOutcome_def headerTimeout_idle)
next
  assume h: "sk \<notin> destroyed st \<and> beforeDeadline evs = pre @ Data d # post \<and> list_all isData pre \<and>
    4 \<le> length d"
  then show "headerReceived (snd (atDeadline st sk evs))"
    using header_chunk_received [of "accepted sk" st pre d post]
    by (simp add: atDeadline_def) (simp add: accepted_def)
next
  assume cl: "Close \<in> set (beforeDeadline evs) \<or> Err \<in> set (beforeDeadline evs)"
  then show t: "\<not> timeoutPending (snd (atDeadline st sk evs))"
    unfolding atDeadline_def by (rule closed_foldl_clears_timer)
  then show "timerOutcome st sk evs = fst (atDeadline st sk evs)"
    by (cases "atDeadline st sk evs") (simp add: timerOutcome_def headerTimeout_idle)
qed

text \<open>
  Claim C9 on three connections to the Gateway with port 25565 bound: a header that comes
  in pieces and again after 20 s, a header in one chunk after 5 ms, and a connection
  closed after 7 ms.
\<close>

theorem header_timeout_witness:
  "list_all shortChunk (beforeDeadline lateHeader) \<and>
   atDeadline boundGateway 9 lateHeader = (boundGateway, accepted 9) \<and>
   9 \<in> destroyed (timerOutcome boundGateway 9 lateHeader) \<and>
   headerReceived (snd (atDeadline boundGateway 9 promptHeader)) \<and>
   timerOutcome boundGateway 9 promptHeader = fst (atDeadline boundGateway 9 promptHeader) \<and>
   Close \<in> set (beforeDeadline closedEarly) \<and>
   \<not> timeoutPending (snd (atDeadline boundGateway 9 closedEarly)) \<and>
   timerOutcome boundGateway 9 closedEarly = fst (atDeadline boundGateway 9 closedEarly)"
proof -
  have b1: "beforeDeadline lateHeader = [Data [0], Data [0, 0x63, 0xDD]]"
    by (simp add: beforeDeadline_def lateHeader_def headerTimeoutMs_def)
  have b2: "beforeDeadline promptHeader = [] @ Data [0, 0, 0x63, 0xDD] # []"
    by (simp add: beforeDeadline_def promptHeader_def headerTimeoutMs_def)
  have b3: "beforeDeadline closedEarly = [Data [0], Close]"
    by (simp add: beforeDeadline_def closedEarly_def headerTimeoutMs_def)
  have h1: "list_all shortChunk (beforeDeadline lateHeader)"
    by (simp add: b1 shortChunk_def)
  have h2: "list_all noHeaderChunk (beforeDeadline lateHeader)"
    by (simp add: b1 noHeaderChunk_def)
  have h4: "9 \<notin> destroyed boundGateway \<and>
            beforeDeadline promptHeader = [] @ Data [0, 0, 0x63, 0xDD] # [] \<and>
            list_all isData [] \<and> 4 \<le> length [0, 0, 0x63, 0xDD :: byte]"
    using b2 by (simp add: boundGateway_def freshGateway_fields)
  have h5: "Close \<in> set (beforeDeadline closedEarly) \<or> Err \<in> set (beforeDeadline closedEarly)"
    by (simp add: b3)
  note late = header_timeout [of lateHeader boundGateway 9 "[]" "[0]" "[]"]
  note prompt = header_timeout [of promptHeader boundGateway 9 "[]" "[0, 0, 0x63, 0xDD]" "[]"]
  note early = header_timeout [of closedEarly boundGateway 9 "[]" "[0]" "[]"]
  have p1: "atDeadline boundGateway 9 lateHeader = (boundGateway, accepted 9)"
    using late h1 by blast
  have p2: "9 \<in> destroyed (timerOutcome boundGateway 9 lateHeader)"
    using late h2 by blast
  have p3: "headerReceived (snd (atDeadline boundGateway 9 promptHeader))"
    using prompt h4 by blast
  have p4: "timerOutcome boundGateway 9 promptHeader = fst (atDeadline boundGateway 9 promptHeader)"
    using prompt p3 by blast
  have p5: "\<not> timeoutPending (snd (atDeadline boundGateway 9 closedEarly))"
    using early h5 by blast
  have p6: "timerOutcome boundGateway 9 closedEarly = fst (atDeadline boundGateway 9 closedEarly)"
    using early h5 by blast
  show ?thesis
    using h1 p1 p2 p3 p4 p5 p6 b3 by simp
qed

section \<open>Properties of the framing\<close>

lemma isDecimal_digit: "(d::nat) < 10 \<Longrightarrow> isDecimal (char_of (48 + d))"
  by (simp add: isDecimal_def)

lemma digitValue_digit: "(d::nat) < 10 \<Longrightarrow> digitValue (char_of (48 + d)) = Some d"
  by (simp add: digitValue_def Let_def)

lemma showNat_decimal: "list_all isDecimal (showNat n)"
proof (induction n rule: showNat.induct)
  case (1 n)
  show ?case
  proof (cases "n < 10")
    case True
    then show ?thesis by (subst showNat.simps) (simp add: isDecimal_digit)
  next
    case False
    with 1 show ?thesis
      by (subst showNat.simps) (simp add: isDecimal_digit)
  qed
qed

lemma showNat_nonempty: "showNat n \<noteq> []"
  by (subst showNat.simps) simp

lemma digitsValue_snoc:
  "digitsValue r (ds @ [c]) = digitsValue r ds * r + (case digitValue c of None \<Rightarrow> 0 | Some d \<Rightarrow> d)"
  by (simp add: digitsValue_def)

lemma digitsValue_showNat: "digitsValue 10 (showNat n) = n"
proof (induction n rule: showNat.induct)
  case (1 n)
  show ?case
  proof (cases "n < 10")
    case True
    then show ?thesis
      by (subst showNat.simps) (simp add: digitsValue_def digitValue_digit)
  next
    case False
    with 1 have "digitsValue 10 (showNat (n div 10)) = n div 10" by simp
    with False show ?thesis
      by (subst showNat.simps) (simp add: digitsValue_snoc digitValue_digit)
  qed
qed

lemma isDecimal_props:
  "isDecimal c \<Longrightarrow> \<not> isWhiteSpace c \<and> c \<noteq> CHR ''-'' \<and> c \<noteq> CHR ''+'' \<and> c \<noteq> CHR ''x'' \<and>
     c \<noteq> CHR ''X'' \<and> c \<noteq> CHR ''.'' \<and> isDigitOf 10 c"
  by (auto simp: isDecimal_def isWhiteSpace_def isDigitOf_def digitValue_def Let_def)

lemma parseInt_decimal:
  assumes "s \<noteq> []" "list_all isDecimal s"
  shows "parseInt s = Some (int (digitsValue 10 s))"
proof -
  from assms obtain c r where s: "s = c # r" by (cases s) auto
  with assms have c: "isDecimal c" and r: "list_all isDecimal r" by auto
  have sgn: "c \<noteq> CHR ''-''" "c \<noteq> CHR ''+''" "\<not> isWhiteSpace c"
    using c by (simp_all add: isDecimal_props)
  have ws: "dropWhile isWhiteSpace s = s"
    using sgn s by simp
  have neg: "(case s of c # _ \<Rightarrow> c = CHR ''-'' | [] \<Rightarrow> False) = False"
    using sgn s by simp
  have s2: "(case s of c # r \<Rightarrow> if c = CHR ''-'' \<or> c = CHR ''+'' then r else s | [] \<Rightarrow> s) = s"
    using sgn s by simp
  have hex: "(take 2 s = ''0x'' \<or> take 2 s = ''0X'') = False"
  proof (cases r)
    case Nil
    with s show ?thesis by simp
  next
    case (Cons c2 r2)
    with r have "isDecimal c2" by simp
    then have "c2 \<noteq> CHR ''x''" "c2 \<noteq> CHR ''X''" by (simp_all add: isDecimal_props)
    then show ?thesis unfolding s Cons by simp
  qed
  have tw: "takeWhile (isDigitOf 10) s = s"
    using assms(2) by (simp add: takeWhile_eq_all_conv list_all_iff isDecimal_props)
  show ?thesis
    unfolding parseInt_def Let_def ws neg s2 hex if_False tw
    using assms(1) by simp
qed

lemma parseInt_showNat: "parseInt (showNat n) = Some (int n)"
  using parseInt_decimal [OF showNat_nonempty showNat_decimal, of n]
  by (simp add: digitsValue_showNat)

lemma dot_notin_showNat: "CHR ''.'' \<notin> set (showNat n)"
proof
  assume "CHR ''.'' \<in> set (showNat n)"
  then have "isDecimal CHR ''.''" using showNat_decimal [of n] by (simp add: list_all_iff)
  then show False using isDecimal_props [of "CHR ''.''"] by simp
qed

lemma splitOn_none: "c \<notin> set s \<Longrightarrow> splitOn c s = [s]"
  by (induction s) auto

lemma splitOn_first: "c \<notin> set a \<Longrightarrow> splitOn c (a @ c # rest) = a # splitOn c rest"
  by (induction a) (auto split: list.splits)

lemma splitOn_dotted:
  "splitOn CHR ''.'' (dotted a b c d) = [showNat a, showNat b, showNat c, showNat d]"
  by (simp add: dotted_def splitOn_first splitOn_none dot_notin_showNat)

lemma ipPart_dotted:
  "ipPart (splitOn CHR ''.'' (dotted a b c d)) 0 = int a"
  "ipPart (splitOn CHR ''.'' (dotted a b c d)) (Suc 0) = int b"
  "ipPart (splitOn CHR ''.'' (dotted a b c d)) 2 = int c"
  "ipPart (splitOn CHR ''.'' (dotted a b c d)) 3 = int d"
  by (simp_all add: splitOn_dotted ipPart_def parseInt_showNat)

lemma showNat_inject: "showNat a = showNat b \<Longrightarrow> a = b"
proof -
  assume e: "showNat a = showNat b"
  have "digitsValue 10 (showNat a) = digitsValue 10 (showNat b)" by (simp only: e)
  then show ?thesis by (simp only: digitsValue_showNat)
qed

lemma dotted_inject:
  "dotted a b c d = dotted a' b' c' d' \<Longrightarrow> a = a' \<and> b = b' \<and> c = c' \<and> d = d'"
proof -
  assume "dotted a b c d = dotted a' b' c' d'"
  then have "splitOn CHR ''.'' (dotted a b c d) = splitOn CHR ''.'' (dotted a' b' c' d')"
    by simp
  then show ?thesis by (simp add: splitOn_dotted showNat_inject)
qed

lemma showNat_zero: "showNat 0 = ''0''"
  by code_simp

lemma dotted_zero: "dotted 0 0 0 0 = ''0.0.0.0''"
  by (simp add: dotted_def showNat_zero)

lemma writeUInt8_nat: "a < 256 \<Longrightarrow> writeUInt8 (int a) = Some (of_nat a)"
  by (simp add: writeUInt8_def)

lemma unat_byte: "a < 256 \<Longrightarrow> unat (of_nat a :: byte) = a"
  by (simp add: unat_of_nat)

lemma writeUInt8_uint: "writeUInt8 (uint (b :: byte)) = Some b"
proof -
  have "uint b < 256" using unsigned_less [of b, where ?'a = int] by simp
  then have "uint b \<le> 255" by simp
  moreover have "0 \<le> uint b" by simp
  ultimately show ?thesis by (simp add: writeUInt8_def)
qed

lemma writeUInt16BE_read:
  "writeUInt16BE (unat (h :: byte) * 256 + unat (l :: byte)) = Some [h, l]"
proof -
  have h: "unat h < 256" using unsigned_less [of h, where ?'a = nat] by simp
  have l: "unat l < 256" using unsigned_less [of l, where ?'a = nat] by simp
  from h l have "unat h * 256 + unat l \<le> 65535" by simp
  moreover from l have "(unat h * 256 + unat l) div 256 = unat h" by simp
  moreover from l have "(unat h * 256 + unat l) mod 256 = unat l" by simp
  ultimately show ?thesis by (simp add: writeUInt16BE_def)
qed

lemma wrapUdp_dotted:
  assumes "a < 256" "b < 256" "c < 256" "d < 256" "p \<le> 65535" "length msg \<le> 65535"
  shows "wrapUdp \<lparr>address = dotted a b c d, rport = p\<rparr> msg =
           Some ([of_nat a, of_nat b, of_nat c, of_nat d,
                  of_nat (p div 256), of_nat (p mod 256),
                  of_nat (length msg div 256), of_nat (length msg mod 256)] @ msg)"
  using assms
  by (simp add: wrapUdp_def ipPart_dotted writeUInt8_nat writeUInt16BE_def)

lemma clientIPText_header:
  "clientIPText (b0 # b1 # b2 # b3 # rest) = dotted (unat b0) (unat b1) (unat b2) (unat b3)"
  by (simp add: clientIPText_def dotted_def)

lemma unat_div_byte: "p \<le> 65535 \<Longrightarrow> unat (of_nat (p div 256) :: byte) = p div 256"
  by (simp add: unat_of_nat)

lemma unat_mod_byte: "unat (of_nat (p mod 256) :: byte) = p mod 256"
  by (simp add: unat_of_nat)

lemma wrap_then_unwrap:
  assumes h: "a < 256 \<and> b < 256 \<and> c < 256 \<and> d < 256 \<and> p \<le> 65535 \<and> 1 \<le> length msg \<and>
    length msg \<le> 65507 \<and> \<not> (a = 0 \<and> b = 0 \<and> c = 0 \<and> d = 0 \<and> p = 0)"
  shows "\<exists>env. wrapUdp \<lparr>address = dotted a b c d, rport = p\<rparr> msg = Some env \<and>
             unwrapUdp env = Some (dotted a b c d, p, msg)"
proof -
  let ?env = "[of_nat a, of_nat b, of_nat c, of_nat d,
                  of_nat (p div 256), of_nat (p mod 256),
                  of_nat (length msg div 256), of_nat (length msg mod 256) :: byte] @ msg"
  have w: "wrapUdp \<lparr>address = dotted a b c d, rport = p\<rparr> msg = Some ?env"
    using h by (simp add: wrapUdp_dotted)
  have ip: "clientIPText ?env = dotted a b c d"
    using h by (simp add: clientIPText_header unat_byte)
  have port: "readUInt16BE ?env 4 = Some p"
    using h by (simp add: readUInt16BE_def unat_div_byte unat_mod_byte)
  have len: "readUInt16BE ?env 6 = Some (length msg)"
    using h by (simp add: readUInt16BE_def unat_div_byte unat_mod_byte)
  have nz: "\<not> (dotted a b c d = ''0.0.0.0'' \<and> p = 0)"
  proof
    assume z: "dotted a b c d = ''0.0.0.0'' \<and> p = 0"
    then have "dotted a b c d = dotted 0 0 0 0" by (simp add: dotted_zero)
    then have "a = 0 \<and> b = 0 \<and> c = 0 \<and> d = 0" by (rule dotted_inject)
    with z h show False by simp
  qed
  have ne: "msg \<noteq> []" using h by auto
  have "unwrapUdp ?env = Some (dotted a b c d, p, msg)"
    unfolding unwrapUdp_def port len ip using nz ne by (simp add: slice_def)
  with w show ?thesis by blast
qed

lemma list8:
  "8 \<le> length data \<Longrightarrow>
   \<exists>b0 b1 b2 b3 b4 b5 b6 b7 rest. data = b0 # b1 # b2 # b3 # b4 # b5 # b6 # b7 # rest"
proof -
  assume "8 \<le> length data"
  then have "data = take 8 data @ drop 8 data" "length (take 8 data) = 8" by simp_all
  moreover have "length xs = 8 \<Longrightarrow> \<exists>b0 b1 b2 b3 b4 b5 b6 b7. xs = [b0, b1, b2, b3, b4, b5, b6, b7]"
    for xs :: "'a list"
    by (simp add: numeral_eq_Suc length_Suc_conv) blast
  ultimately obtain b0 b1 b2 b3 b4 b5 b6 b7 where
    "data = [b0, b1, b2, b3, b4, b5, b6, b7] @ drop 8 data" by metis
  then show ?thesis by (metis append_Cons append_Nil)
qed

lemma unwrap_then_wrap:
  assumes u: "unwrapUdp data = Some (ip, q, payload)"
  shows "wrapUdp \<lparr>address = ip, rport = q\<rparr> payload = Some (take (8 + length payload) data)"
proof -
  from u have l8: "8 \<le> length data" by (simp add: unwrapUdp_def split: if_splits)
  then obtain b0 b1 b2 b3 b4 b5 b6 b7 rest where
    data: "data = b0 # b1 # b2 # b3 # b4 # b5 # b6 # b7 # rest"
    using list8 by blast
  have r4: "readUInt16BE data 4 = Some (unat b4 * 256 + unat b5)"
    by (simp add: data readUInt16BE_def)
  have r6: "readUInt16BE data 6 = Some (unat b6 * 256 + unat b7)"
    by (simp add: data readUInt16BE_def)
  have ipt: "clientIPText data = dotted (unat b0) (unat b1) (unat b2) (unat b3)"
    by (simp add: data clientIPText_header)
  from u have f: "ip = dotted (unat b0) (unat b1) (unat b2) (unat b3)"
    "q = unat b4 * 256 + unat b5"
    "payload = slice data 8 (8 + (unat b6 * 256 + unat b7))"
    "8 + (unat b6 * 256 + unat b7) \<le> length data"
    unfolding unwrapUdp_def r4 r6 ipt by (simp_all add: Let_def split: if_splits)
  have lp: "length payload = unat b6 * 256 + unat b7"
    using f(3,4) by (simp add: slice_def)
  have pl: "payload = take (length payload) rest"
    using f(3) lp by (simp add: slice_def data)
  have "wrapUdp \<lparr>address = ip, rport = q\<rparr> payload =
          Some ([b0, b1, b2, b3] @ [b4, b5] @ [b6, b7] @ payload)"
    unfolding wrapUdp_def Let_def
    by (simp add: f(1,2) lp ipPart_dotted writeUInt8_uint writeUInt16BE_read)
  also have "[b0, b1, b2, b3] @ [b4, b5] @ [b6, b7] @ payload = take (8 + length payload) data"
  proof -
    have "take (8 + length payload) ([b0, b1, b2, b3, b4, b5, b6, b7] @ rest) =
          [b0, b1, b2, b3, b4, b5, b6, b7] @ take (length payload) rest"
      by (simp del: append.simps)
    with pl show ?thesis by (simp add: data)
  qed
  finally show ?thesis .
qed

lemma dotted_player: "dotted 10 0 0 2 = ''10.0.0.2''"
  by code_simp

lemma wrapUdp_player:
  "length msg \<le> 65535 \<Longrightarrow>
   wrapUdp player msg =
     Some ([10, 0, 0, 2, 0x13, 0x88, of_nat (length msg div 256), of_nat (length msg mod 256)] @ msg)"
  using wrapUdp_dotted [of 10 0 0 2 5000 msg]
  by (simp add: player_def dotted_player)

text \<open>
  Claim C7, as the code has it. For every IPv4 address, every port up to 65535 and every
  payload of 1 to 65507 bytes, the address and port not being 0.0.0.0 and 0 together,
  the Gateway's envelope is decoded by the Agent to the same address, port and payload.
  Every chunk the Agent decodes as a datagram is encoded again to its first 8 + N bytes,
  hence to itself when it holds nothing after the payload.
\<close>

theorem envelope_roundtrip:
  "(a < 256 \<and> b < 256 \<and> c < 256 \<and> d < 256 \<and> p \<le> 65535 \<and> 1 \<le> length msg \<and>
    length msg \<le> 65507 \<and> \<not> (a = 0 \<and> b = 0 \<and> c = 0 \<and> d = 0 \<and> p = 0) \<longrightarrow>
      (\<exists>env. wrapUdp \<lparr>address = dotted a b c d, rport = p\<rparr> msg = Some env \<and>
             unwrapUdp env = Some (dotted a b c d, p, msg))) \<and>
   (unwrapUdp data = Some (ip, q, payload) \<longrightarrow>
      wrapUdp \<lparr>address = ip, rport = q\<rparr> payload = Some (take (8 + length payload) data) \<and>
      (length data = 8 + length payload \<longrightarrow>
         wrapUdp \<lparr>address = ip, rport = q\<rparr> payload = Some data))"
  using wrap_then_unwrap [of a b c d p msg] unwrap_then_wrap [of data ip q payload]
  by auto

text \<open>Claim C7 on a datagram of three bytes from 10.0.0.2:5000, in both directions.\<close>

theorem envelope_roundtrip_witness:
  "(\<exists>env. wrapUdp \<lparr>address = dotted 10 0 0 2, rport = 5000\<rparr> [1, 2, 3] = Some env \<and>
          unwrapUdp env = Some (dotted 10 0 0 2, 5000, [1, 2, 3])) \<and>
   unwrapUdp [10, 0, 0, 2, 0x13, 0x88, 0, 3, 1, 2, 3] = Some (''10.0.0.2'', 5000, [1, 2, 3]) \<and>
   wrapUdp \<lparr>address = ''10.0.0.2'', rport = 5000\<rparr> [1, 2, 3]
     = Some [10, 0, 0, 2, 0x13, 0x88, 0, 3, 1, 2, 3]"
proof -
  have u: "unwrapUdp [10, 0, 0, 2, 0x13, 0x88, 0, 3, 1, 2, 3] = Some (''10.0.0.2'', 5000, [1, 2, 3])"
    by (simp add: unwrapUdp_def readUInt16BE_def Let_def clientIPText_header dotted_player
        slice_def)
  show ?thesis
    using u
      envelope_roundtrip [of 10 0 0 2 5000 "[1, 2, 3]"
        "[10, 0, 0, 2, 0x13, 0x88, 0, 3, 1, 2, 3]" "''10.0.0.2''" 5000 "[1, 2, 3]"]
    by simp
qed

text \<open>
  Claim C7 as stated fails for N = 0: the envelope of an empty datagram is not decoded
  as a datagram by the Agent, whose test asks for a positive length.
\<close>

theorem envelope_roundtrip_counterexample:
  "wrapUdp player [] = Some [10, 0, 0, 2, 0x13, 0x88, 0, 0] \<and>
   unwrapUdp [10, 0, 0, 2, 0x13, 0x88, 0, 0] = None"
  by (simp add: wrapUdp_player unwrapUdp_def readUInt16BE_def Let_def)

lemma responseEnvelope_zero:
  "responseEnvelope responseMsg =
     (if length responseMsg \<le> 65535 then Some (zeroEnvelope responseMsg) else None)"
  by (simp add: responseEnvelope_def writeUInt8_def writeUInt16BE_def zeroEnvelope_def)

lemma readUInt16BE_zeroEnvelope:
  "length msg \<le> 65535 \<Longrightarrow> readUInt16BE (zeroEnvelope msg) 6 = Some (length msg)"
  by (simp add: zeroEnvelope_def readUInt16BE_def unat_div_byte unat_mod_byte)

lemma slice_zeroEnvelope: "slice (zeroEnvelope msg) 8 (8 + length msg) = msg"
  by (simp add: zeroEnvelope_def slice_def)

lemma length_zeroEnvelope: "length (zeroEnvelope msg) = 8 + length msg"
  by (simp add: zeroEnvelope_def)

text \<open>
  Claim C6, as the code has it. The envelope the Agent writes for a reply of the local
  service has an all-zero address and port, then the length and the reply; the first
  reply of an exchange is written so to the Gateway. The Gateway's handler of the
  exchange does not read the address and port: it sends the payload to the client whose
  datagram opened the exchange.
\<close>

theorem response_envelope_zero_header:
  "responseEnvelope responseMsg =
     (if length responseMsg \<le> 65535 then Some (zeroEnvelope responseMsg) else None) \<and>
   (\<not> responseReceived x \<and> \<not> proxyDestroyed x \<and> length responseMsg \<le> 65535 \<longrightarrow>
      handleResponse x responseMsg =
        Some (x\<lparr>responseReceived := True,
                 proxyWritten := proxyWritten x @ [zeroEnvelope responseMsg],
                 bytesTransferred := bytesTransferred x + length responseMsg\<rparr>)) \<and>
   (length responseMsg \<le> 65535 \<and> publicPort \<in> activeUdpServers st \<longrightarrow>
      udpSent (responseHandler st connId localSocket ri publicPort (zeroEnvelope responseMsg)) =
        udpSent st @ [(publicPort, ri, responseMsg)])"
proof (intro conjI impI)
  show "responseEnvelope responseMsg =
     (if length responseMsg \<le> 65535 then Some (zeroEnvelope responseMsg) else None)"
    by (rule responseEnvelope_zero)
next
  assume "\<not> responseReceived x \<and> \<not> proxyDestroyed x \<and> length responseMsg \<le> 65535"
  then show "handleResponse x responseMsg =
        Some (x\<lparr>responseReceived := True,
                 proxyWritten := proxyWritten x @ [zeroEnvelope responseMsg],
                 bytesTransferred := bytesTransferred x + length responseMsg\<rparr>)"
    by (simp add: handleResponse_def responseEnvelope_zero Let_def)
next
  assume h: "length responseMsg \<le> 65535 \<and> publicPort \<in> activeUdpServers st"
  then show "udpSent (responseHandler st connId localSocket ri publicPort (zeroEnvelope responseMsg)) =
        udpSent st @ [(publicPort, ri, responseMsg)]"
    by (simp add: responseHandler_def readUInt16BE_zeroEnvelope slice_zeroEnvelope
        length_zeroEnvelope Let_def returnToPool_def broadcastLog_def)
qed

text \<open>Claim C6 on a reply of three bytes, and on its way back through the Gateway.\<close>

theorem response_envelope_witness:
  "handleResponse freshExchange [1, 2, 3] =
     Some \<lparr>responseReceived = True, proxyDestroyed = False,
           proxyWritten = [[0, 0, 0, 0, 0, 0, 0, 3, 1, 2, 3]], bytesTransferred = 3\<rparr> \<and>
   udpSent (responseHandler udpGateway 1 202 player 27015 (zeroEnvelope [1, 2, 3])) =
     [(27015, player, [1, 2, 3])]"
proof -
  have a: "\<not> responseReceived freshExchange \<and> \<not> proxyDestroyed freshExchange \<and>
           length [1, 2, 3 :: byte] \<le> 65535"
    by (simp add: freshExchange_def)
  have b: "length [1, 2, 3 :: byte] \<le> 65535 \<and> 27015 \<in> activeUdpServers udpGateway"
    by (simp add: udpGateway_def)
  show ?thesis
    using a b
      response_envelope_zero_header [of "[1, 2, 3]" freshExchange 27015 udpGateway 1 202 player]
    by (simp add: zeroEnvelope_def freshExchange_def udpGateway_def freshGateway_fields)
qed

text \<open>
  Claim C6 as stated fails: the envelope written for the reply 01 02 03 carries the
  address 0.0.0.0 and the port 0.
\<close>

theorem response_envelope_counterexample:
  "handleResponse freshExchange [1, 2, 3] =
     Some \<lparr>responseReceived = True, proxyDestroyed = False,
           proxyWritten = [[0, 0, 0, 0, 0, 0, 0, 3, 1, 2, 3]], bytesTransferred = 3\<rparr> \<and>
   clientIPText [0, 0, 0, 0, 0, 0, 0, 3, 1, 2, 3] = ''0.0.0.0'' \<and>
   readUInt16BE [0, 0, 0, 0, 0, 0, 0, 3, 1, 2, 3] 4 = Some 0"
  by (simp add: handleResponse_def responseEnvelope_zero zeroEnvelope_def freshExchange_def
      Let_def clientIPText_header dotted_zero readUInt16BE_def)

section \<open>Properties of the UDP dispatch\<close>

lemma countCall_fields:
  "connectionId (countCall st) = Suc (connectionId st)"
  "waitingQueue (countCall st) = waitingQueue st"
  "idleLocalSockets (countCall st) = idleLocalSockets st"
  "activeConnections (countCall st) = activeConnections st"
  "destroyed (countCall st) = destroyed st"
  "written (countCall st) = written st"
  "udpPending (countCall st) = udpPending st"
  "udpSent (countCall st) = udpSent st"
  "logs (countCall st) = logs st @ [(Info, ''UDP message received'')]"
  "totalConnections (connectionStats (countCall st)) = Suc (totalConnections (connectionStats st))"
  by (simp_all add: countCall_def broadcastLog_def)

lemma shiftIdle_fields:
  "connectionId (shiftIdle pp ss st) = connectionId st"
  "waitingQueue (shiftIdle pp ss st) = waitingQueue st"
  "idleLocalSockets (shiftIdle pp ss st) = (idleLocalSockets st)(pp \<mapsto> ss)"
  "activeConnections (shiftIdle pp ss st) = activeConnections st"
  "destroyed (shiftIdle pp ss st) = destroyed st"
  "written (shiftIdle pp ss st) = written st"
  "udpPending (shiftIdle pp ss st) = udpPending st"
  "udpSent (shiftIdle pp ss st) = udpSent st"
  "logs (shiftIdle pp ss st) = logs st"
  "connectionStats (shiftIdle pp ss st) = connectionStats st"
  by (simp_all add: shiftIdle_def)

lemma pool_shiftIdle: "pool (shiftIdle pp ss st) pp = ss"
  by (simp add: shiftIdle_def getOrEmpty_def)

lemma handleUdpMessage_empty:
  "pool st pp = [] \<Longrightarrow>
   handleUdpMessage st msg ri pp lp =
     (Dropped, broadcastLog Warning ''no idle agent connection for UDP data'' (countCall st))"
  by (subst handleUdpMessage.simps) (simp add: countCall_fields Let_def)

lemma handleUdpMessage_retry:
  "pool st pp = sk # ss \<Longrightarrow> sk \<in> destroyed st \<Longrightarrow>
   handleUdpMessage st msg ri pp lp =
     handleUdpMessage
       (broadcastLog Warning ''selected agent connection is gone, retrying''
          (shiftIdle pp ss (countCall st))) msg ri pp lp"
  by (subst handleUdpMessage.simps) (simp add: countCall_fields shiftIdle_fields Let_def)

lemma handleUdpMessage_live:
  "pool st pp = sk # ss \<Longrightarrow> sk \<notin> destroyed st \<Longrightarrow>
   handleUdpMessage st msg ri pp lp =
     forwardUdp (shiftIdle pp ss (countCall st)) (Suc (connectionId st)) sk msg ri pp lp"
  by (subst handleUdpMessage.simps) (simp add: countCall_fields shiftIdle_fields Let_def)

lemma forwardUdp_fields:
  "connectionId (snd (forwardUdp st c sk msg ri pp lp)) = connectionId st"
  "idleLocalSockets (snd (forwardUdp st c sk msg ri pp lp)) = idleLocalSockets st"
  "waitingQueue (snd (forwardUdp st c sk msg ri pp lp)) = waitingQueue st"
  "destroyed (snd (forwardUdp st c sk msg ri pp lp)) = destroyed st"
  by (simp_all add: forwardUdp_def Let_def broadcastLog_def split: option.splits)

lemma forwardUdp_outcome:
  "fst (forwardUdp st c sk msg ri pp lp) =
     (case wrapUdp ri msg of None \<Rightarrow> Threw | Some w \<Rightarrow> Forwarded c sk)"
  by (simp add: forwardUdp_def Let_def split: option.splits)

lemma forwardUdp_written:
  "written (snd (forwardUdp st c sk msg ri pp lp)) =
     (case wrapUdp ri msg of None \<Rightarrow> written st
      | Some w \<Rightarrow> (written st)(sk := written st sk @ [w]))"
  by (simp add: forwardUdp_def Let_def broadcastLog_def split: option.splits)

lemma handleUdpMessage_run:
  "pool st pp = xs \<Longrightarrow>
   destroyed (snd (handleUdpMessage st msg ri pp lp)) = destroyed st \<and>
   waitingQueue (snd (handleUdpMessage st msg ri pp lp)) = waitingQueue st \<and>
   connectionId (snd (handleUdpMessage st msg ri pp lp)) =
     connectionId st + length (takeWhile (\<lambda>x. x \<in> destroyed st) xs) + 1 \<and>
   pool (snd (handleUdpMessage st msg ri pp lp)) pp = tl (dropWhile (\<lambda>x. x \<in> destroyed st) xs) \<and>
   fst (handleUdpMessage st msg ri pp lp) =
     (case dropWhile (\<lambda>x. x \<in> destroyed st) xs of
        [] \<Rightarrow> Dropped
      | sk # _ \<Rightarrow> (case wrapUdp ri msg of
                    None \<Rightarrow> Threw
                  | Some w \<Rightarrow>
                      Forwarded (connectionId (snd (handleUdpMessage st msg ri pp lp))) sk)) \<and>
   written (snd (handleUdpMessage st msg ri pp lp)) =
     (case dropWhile (\<lambda>x. x \<in> destroyed st) xs of
        [] \<Rightarrow> written st
      | sk # _ \<Rightarrow> (case wrapUdp ri msg of
                    None \<Rightarrow> written st
                  | Some w \<Rightarrow> (written st)(sk := written st sk @ [w])))"
proof (induction xs arbitrary: st)
  case Nil
  then show ?case
    by (simp add: handleUdpMessage_empty broadcastLog_fields countCall_fields)
next
  case (Cons sk ss)
  show ?case
  proof (cases "sk \<in> destroyed st")
    case True
    let ?st = "broadcastLog Warning ''selected agent connection is gone, retrying''
          (shiftIdle pp ss (countCall st))"
    have p: "pool ?st pp = ss"
      by (simp add: broadcastLog_fields pool_shiftIdle)
    have d: "destroyed ?st = destroyed st"
      by (simp add: broadcastLog_fields shiftIdle_fields countCall_fields)
    have w: "written ?st = written st" "waitingQueue ?st = waitingQueue st"
      "connectionId ?st = Suc (connectionId st)"
      by (simp_all add: broadcastLog_fields shiftIdle_fields countCall_fields)
    have e: "handleUdpMessage st msg ri pp lp = handleUdpMessage ?st msg ri pp lp"
      using Cons.prems True by (rule handleUdpMessage_retry)
    note ih = Cons.IH [OF p, unfolded d w]
    show ?thesis
      unfolding e using ih True by simp
  next
    case False
    have e: "handleUdpMessage st msg ri pp lp =
       forwardUdp (shiftIdle pp ss (countCall st)) (Suc (connectionId st)) sk msg ri pp lp"
      using Cons.prems False by (rule handleUdpMessage_live)
    show ?thesis
      unfolding e using False
      by (simp add: forwardUdp_fields forwardUdp_outcome forwardUdp_written shiftIdle_fields
          countCall_fields pool_shiftIdle getOrEmpty_def split: option.splits)
  qed
qed

lemma length_takeWhile_drop:
  "drop (Suc (length (takeWhile P xs))) xs = tl (dropWhile P xs)"
  by (induction xs) auto

lemma dropWhile_empty_all: "dropWhile P xs = [] \<Longrightarrow> takeWhile P xs = xs \<and> (\<forall>x\<in>set xs. P x)"
  by (induction xs) (auto split: if_splits)

lemma dropWhile_hd: "dropWhile P xs = y # ys \<Longrightarrow> \<not> P y \<and> y \<in> set xs \<and>
    length ys + Suc (length (takeWhile P xs)) = length xs"
proof -
  assume a: "dropWhile P xs = y # ys"
  then have "\<not> P y" using hd_dropWhile [of P xs] by auto
  moreover have "y \<in> set xs" using a set_dropWhileD [of y P xs] by simp
  moreover have "length (takeWhile P xs) + length (dropWhile P xs) = length xs"
    by (metis length_append takeWhile_dropWhile_id)
  ultimately show ?thesis using a by simp
qed

lemma outcome_Dropped:
  assumes out: "out =
     (case live of [] \<Rightarrow> Dropped
      | sk # _ \<Rightarrow> (case w of None \<Rightarrow> Threw | Some e \<Rightarrow> Forwarded n sk))"
  shows "(out = Dropped) = (live = [])"
  unfolding out by (simp split: list.splits option.splits)

lemma outcome_Forwarded:
  assumes out: "out =
     (case live of [] \<Rightarrow> Dropped
      | sk # _ \<Rightarrow> (case w of None \<Rightarrow> Threw | Some e \<Rightarrow> Forwarded n sk))"
  shows "(out = Forwarded c sk) = (\<exists>ys e. live = sk # ys \<and> w = Some e \<and> c = n)"
  unfolding out by (auto split: list.splits option.splits)

lemma outcome_not_Threw:
  assumes out: "out =
     (case live of [] \<Rightarrow> Dropped
      | sk # _ \<Rightarrow> (case w of None \<Rightarrow> Threw | Some e \<Rightarrow> Forwarded n sk))"
  shows "w \<noteq> None \<Longrightarrow> out = Dropped \<or> (\<exists>c sk. out = Forwarded c sk)"
  unfolding out by (auto split: list.splits option.splits)

lemma udpGateway_dispatch:
  "fst (handleUdpMessage udpGateway [1, 2, 3] player 27015 27015) = Forwarded 2 202"
  "getOrEmpty (idleLocalSockets (snd (handleUdpMessage udpGateway [1, 2, 3] player 27015 27015)))
     27015 = [203]"
  "connectionId (snd (handleUdpMessage udpGateway [1, 2, 3] player 27015 27015)) = 2"
  "written (snd (handleUdpMessage udpGateway [1, 2, 3] player 27015 27015)) 202 =
     [[10, 0, 0, 2, 0x13, 0x88, 0, 3, 1, 2, 3]]"
  using handleUdpMessage_run [of udpGateway 27015 "[201, 202, 203]" "[1, 2, 3]" player 27015]
  by (simp_all add: udpGateway_fields wrapUdp_player)

lemma deadPoolGateway_dispatch:
  "fst (handleUdpMessage deadPoolGateway [1, 2, 3] player 27015 27015) = Dropped"
  "getOrEmpty (idleLocalSockets (snd (handleUdpMessage deadPoolGateway [1, 2, 3] player 27015 27015)))
     27015 = []"
  "connectionId (snd (handleUdpMessage deadPoolGateway [1, 2, 3] player 27015 27015)) = 2"
  using handleUdpMessage_run [of deadPoolGateway 27015 "[201]" "[1, 2, 3]" player 27015]
  by (simp_all add: deadPoolGateway_fields)

lemma handleUdpMessage_selected:
  "fst (handleUdpMessage st msg ri pp lp) = Forwarded c sk \<Longrightarrow>
   dropWhile (\<lambda>x. x \<in> destroyed st) (getOrEmpty (idleLocalSockets st) pp) =
     sk # getOrEmpty (idleLocalSockets (snd (handleUdpMessage st msg ri pp lp))) pp"
proof -
  let ?xs = "getOrEmpty (idleLocalSockets st) pp"
  let ?P = "\<lambda>x. x \<in> destroyed st"
  let ?r = "handleUdpMessage st msg ri pp lp"
  assume f: "fst ?r = Forwarded c sk"
  note run = handleUdpMessage_run [of st pp ?xs msg ri lp, OF refl]
  have pl: "pool (snd ?r) pp = tl (dropWhile ?P ?xs)"
    using run by (elim conjE)
  have out: "fst ?r =
     (case dropWhile ?P ?xs of [] \<Rightarrow> Dropped
      | sk # _ \<Rightarrow> (case wrapUdp ri msg of None \<Rightarrow> Threw
                  | Some w \<Rightarrow> Forwarded (connectionId (snd ?r)) sk))"
    using run by (elim conjE)
  from f obtain ys where dw: "dropWhile ?P ?xs = sk # ys"
    using outcome_Forwarded [OF out, of c sk] by blast
  show ?thesis unfolding pl dw by simp
qed

lemma pool_returnToPool:
  "getOrEmpty (idleLocalSockets (returnToPool c sk pp st)) pp =
     getOrEmpty (idleLocalSockets st) pp @ [sk]"
  by (simp add: returnToPool_def getOrEmpty_def)

lemma forwardUdp_active:
  "fst (forwardUdp st n sk' msg ri pp lp) = Forwarded c sk \<Longrightarrow>
   activeConnections (snd (forwardUdp st n sk' msg ri pp lp)) c \<noteq> None"
  by (simp add: forwardUdp_def Let_def broadcastLog_def split: option.splits)

lemma handleUdpMessage_active:
  "getOrEmpty (idleLocalSockets st) pp = xs \<Longrightarrow>
   fst (handleUdpMessage st msg ri pp lp) = Forwarded c sk \<Longrightarrow>
   activeConnections (snd (handleUdpMessage st msg ri pp lp)) c \<noteq> None"
proof (induction xs arbitrary: st)
  case Nil
  then show ?case by (simp add: handleUdpMessage_empty)
next
  case (Cons x xs)
  show ?case
  proof (cases "x \<in> destroyed st")
    case True
    let ?st = "broadcastLog Warning ''selected agent connection is gone, retrying''
          (shiftIdle pp xs (countCall st))"
    have p: "getOrEmpty (idleLocalSockets ?st) pp = xs"
      by (simp add: broadcastLog_fields pool_shiftIdle)
    have e: "handleUdpMessage st msg ri pp lp = handleUdpMessage ?st msg ri pp lp"
      using Cons.prems(1) True by (rule handleUdpMessage_retry)
    show ?thesis
      using Cons.IH [OF p] Cons.prems(2) unfolding e by simp
  next
    case False
    have e: "handleUdpMessage st msg ri pp lp =
       forwardUdp (shiftIdle pp xs (countCall st)) (Suc (connectionId st)) x msg ri pp lp"
      using Cons.prems(1) False by (rule handleUdpMessage_live)
    show ?thesis
      using Cons.prems(2) unfolding e by (rule forwardUdp_active)
  qed
qed

text \<open>
  Claim C10. \<^verbatim>\<open>handleUdpMessage\<close> is a total function: its recursion ends because every
  retry has taken one socket out of the pool. The number of calls for one datagram is
  one more than the number of destroyed sockets at the head of the pool, hence at most
  k + 1 for a pool of k sockets, and the pool afterwards is the old pool without its
  first sockets, one per call. The datagram is dropped only with the pool empty and all
  its former sockets destroyed; it is forwarded only on a socket of the pool that is
  not destroyed, as one write of the envelope; and a datagram of an IPv4 sender is
  either dropped or forwarded.
\<close>

theorem udp_retry_bounded:
  "calls st (snd (handleUdpMessage st msg ri pp lp)) =
     Suc (length (takeWhile (\<lambda>x. x \<in> destroyed st) (getOrEmpty (idleLocalSockets st) pp))) \<and>
   calls st (snd (handleUdpMessage st msg ri pp lp))
     \<le> length (getOrEmpty (idleLocalSockets st) pp) + 1 \<and>
   getOrEmpty (idleLocalSockets (snd (handleUdpMessage st msg ri pp lp))) pp =
     drop (calls st (snd (handleUdpMessage st msg ri pp lp)))
       (getOrEmpty (idleLocalSockets st) pp) \<and>
   (fst (handleUdpMessage st msg ri pp lp) = Dropped \<longrightarrow>
      getOrEmpty (idleLocalSockets (snd (handleUdpMessage st msg ri pp lp))) pp = [] \<and>
      set (getOrEmpty (idleLocalSockets st) pp) \<subseteq> destroyed st) \<and>
   (fst (handleUdpMessage st msg ri pp lp) = Forwarded c sk \<longrightarrow>
      sk \<notin> destroyed st \<and> sk \<in> set (getOrEmpty (idleLocalSockets st) pp) \<and>
      (\<exists>w. wrapUdp ri msg = Some w \<and>
           written (snd (handleUdpMessage st msg ri pp lp)) sk = written st sk @ [w])) \<and>
   (a < 256 \<and> b < 256 \<and> c' < 256 \<and> d < 256 \<and> p \<le> 65535 \<and> length msg \<le> 65507 \<and>
    ri = \<lparr>address = dotted a b c' d, rport = p\<rparr> \<longrightarrow>
      fst (handleUdpMessage st msg ri pp lp) = Dropped \<or>
      isForwarded (fst (handleUdpMessage st msg ri pp lp)))"
proof -
  let ?xs = "getOrEmpty (idleLocalSockets st) pp"
  let ?P = "\<lambda>x. x \<in> destroyed st"
  let ?r = "handleUdpMessage st msg ri pp lp"
  note run = handleUdpMessage_run [of st pp ?xs msg ri lp, OF refl]
  have cid: "connectionId (snd ?r) = connectionId st + length (takeWhile ?P ?xs) + 1"
    using run by (elim conjE)
  have pl: "pool (snd ?r) pp = tl (dropWhile ?P ?xs)"
    using run by (elim conjE)
  have out: "fst ?r =
     (case dropWhile ?P ?xs of [] \<Rightarrow> Dropped
      | sk # _ \<Rightarrow> (case wrapUdp ri msg of None \<Rightarrow> Threw
                  | Some w \<Rightarrow> Forwarded (connectionId (snd ?r)) sk))"
    using run by (elim conjE)
  have wr: "written (snd ?r) =
     (case dropWhile ?P ?xs of [] \<Rightarrow> written st
      | sk # _ \<Rightarrow> (case wrapUdp ri msg of None \<Rightarrow> written st
                  | Some w \<Rightarrow> (written st)(sk := written st sk @ [w])))"
    using run by (elim conjE)
  have c1: "calls st (snd ?r) = Suc (length (takeWhile ?P ?xs))"
    using cid by (simp add: calls_def)
  have c2: "calls st (snd ?r) \<le> length ?xs + 1"
    using c1 length_takeWhile_le [of ?P ?xs] by simp
  have c3: "pool (snd ?r) pp = drop (calls st (snd ?r)) ?xs"
    unfolding pl c1 by (rule length_takeWhile_drop [symmetric])
  have c4: "fst ?r = Dropped \<longrightarrow> pool (snd ?r) pp = [] \<and> set ?xs \<subseteq> destroyed st"
  proof
    assume "fst ?r = Dropped"
    then have e: "dropWhile ?P ?xs = []"
      using outcome_Dropped [OF out] by (simp only:)
    have "pool (snd ?r) pp = []" unfolding pl e by simp
    moreover have "set ?xs \<subseteq> destroyed st"
      using dropWhile_empty_all [OF e] by blast
    ultimately show "pool (snd ?r) pp = [] \<and> set ?xs \<subseteq> destroyed st" by (rule conjI)
  qed
  have c5: "fst ?r = Forwarded c sk \<longrightarrow>
      sk \<notin> destroyed st \<and> sk \<in> set ?xs \<and>
      (\<exists>w. wrapUdp ri msg = Some w \<and> written (snd ?r) sk = written st sk @ [w])"
  proof
    assume "fst ?r = Forwarded c sk"
    then obtain ys w where dw: "dropWhile ?P ?xs = sk # ys" and w: "wrapUdp ri msg = Some w"
      using outcome_Forwarded [OF out, of c sk] by blast
    have a: "sk \<notin> destroyed st \<and> sk \<in> set ?xs"
      using dropWhile_hd [OF dw] by blast
    have "written (snd ?r) sk = written st sk @ [w]"
      unfolding wr dw w by simp
    with a w show "sk \<notin> destroyed st \<and> sk \<in> set ?xs \<and>
      (\<exists>w. wrapUdp ri msg = Some w \<and> written (snd ?r) sk = written st sk @ [w])"
      by blast
  qed
  have c6: "a < 256 \<and> b < 256 \<and> c' < 256 \<and> d < 256 \<and> p \<le> 65535 \<and> length msg \<le> 65507 \<and>
    ri = \<lparr>address = dotted a b c' d, rport = p\<rparr> \<longrightarrow>
      fst ?r = Dropped \<or> isForwarded (fst ?r)"
  proof
    assume h: "a < 256 \<and> b < 256 \<and> c' < 256 \<and> d < 256 \<and> p \<le> 65535 \<and> length msg \<le> 65507 \<and>
      ri = \<lparr>address = dotted a b c' d, rport = p\<rparr>"
    then have "wrapUdp ri msg \<noteq> None"
      using wrapUdp_dotted [of a b c' d p msg] by simp
    then have "fst ?r = Dropped \<or> (\<exists>c sk. fst ?r = Forwarded c sk)"
      by (rule outcome_not_Threw [OF out])
    then show "fst ?r = Dropped \<or> isForwarded (fst ?r)"
      by (auto simp: isForwarded_def)
  qed
  show ?thesis by (intro conjI c1 c2 c3 c4 c5 c6)
qed

text \<open>
  Claim C10 on a pool of three sockets whose first is destroyed (two calls, forwarded on
  the second socket) and on a pool of one destroyed socket (two calls, dropped).
\<close>

theorem udp_retry_bounded_witness:
  "fst (handleUdpMessage udpGateway [1, 2, 3] player 27015 27015) = Forwarded 2 202 \<and>
   calls udpGateway (snd (handleUdpMessage udpGateway [1, 2, 3] player 27015 27015)) = 2 \<and>
   202 \<notin> destroyed udpGateway \<and>
   written (snd (handleUdpMessage udpGateway [1, 2, 3] player 27015 27015)) 202 =
     [[10, 0, 0, 2, 0x13, 0x88, 0, 3, 1, 2, 3]] \<and>
   isForwarded (fst (handleUdpMessage udpGateway [1, 2, 3] player 27015 27015)) \<and>
   fst (handleUdpMessage deadPoolGateway [1, 2, 3] player 27015 27015) = Dropped \<and>
   calls deadPoolGateway (snd (handleUdpMessage deadPoolGateway [1, 2, 3] player 27015 27015)) = 2 \<and>
   set (getOrEmpty (idleLocalSockets deadPoolGateway) 27015) \<subseteq> destroyed deadPoolGateway"
proof -
  have f: "fst (handleUdpMessage udpGateway [1, 2, 3] player 27015 27015) = Forwarded 2 202"
    by (rule udpGateway_dispatch)
  have d: "fst (handleUdpMessage deadPoolGateway [1, 2, 3] player 27015 27015) = Dropped"
    by (rule deadPoolGateway_dispatch)
  have h: "(10::nat) < 256 \<and> (0::nat) < 256 \<and> (0::nat) < 256 \<and> (2::nat) < 256 \<and> (5000::nat) \<le> 65535 \<and>
           length [1, 2, 3 :: byte] \<le> 65507 \<and> player = \<lparr>address = dotted 10 0 0 2, rport = 5000\<rparr>"
    by (simp add: player_def dotted_player)
  show ?thesis
    using f d h
      udp_retry_bounded [of udpGateway "[1, 2, 3]" player 27015 27015 2 202 10 0 0 2 5000]
      udp_retry_bounded [of deadPoolGateway "[1, 2, 3]" player 27015 27015 2 202 10 0 0 2 5000]
    by (simp add: udpGateway_fields deadPoolGateway_fields udpGateway_dispatch wrapUdp_player)
qed

text \<open>
  Claim C5, as the code has it. With no idle session the datagram is dropped: a warning
  is logged and nothing is queued, written or pooled. A session that is selected is
  taken out of the idle pool: the pool afterwards is what followed the session. The
  session is put back at the end of the pool when a complete response envelope arrives
  on it, or by the 30 s timer when the exchange is still open.
\<close>

theorem udp_dispatch_pool:
  "(getOrEmpty (idleLocalSockets st) pp = [] \<longrightarrow>
      handleUdpMessage st msg ri pp lp =
        (Dropped, broadcastLog Warning ''no idle agent connection for UDP data'' (countCall st)) \<and>
      written (snd (handleUdpMessage st msg ri pp lp)) = written st \<and>
      waitingQueue (snd (handleUdpMessage st msg ri pp lp)) = waitingQueue st \<and>
      idleLocalSockets (snd (handleUdpMessage st msg ri pp lp)) = idleLocalSockets st \<and>
      udpPending (snd (handleUdpMessage st msg ri pp lp)) = udpPending st \<and>
      logs (snd (handleUdpMessage st msg ri pp lp)) =
        logs st @ [(Info, ''UDP message received''),
                   (Warning, ''no idle agent connection for UDP data'')]) \<and>
   (fst (handleUdpMessage st msg ri pp lp) = Forwarded c sk \<longrightarrow>
      dropWhile (\<lambda>x. x \<in> destroyed st) (getOrEmpty (idleLocalSockets st) pp) =
        sk # getOrEmpty (idleLocalSockets (snd (handleUdpMessage st msg ri pp lp))) pp) \<and>
   (8 \<le> length data \<and> readUInt16BE data 6 = Some n \<and> 8 + n \<le> length data \<longrightarrow>
      getOrEmpty (idleLocalSockets (responseHandler st c sk ri pp data)) pp =
        getOrEmpty (idleLocalSockets st) pp @ [sk]) \<and>
   (activeConnections st c \<noteq> None \<longrightarrow>
      getOrEmpty (idleLocalSockets (udpTimeout st c sk pp)) pp =
        getOrEmpty (idleLocalSockets st) pp @ [sk])"
proof (intro conjI impI)
  assume e: "getOrEmpty (idleLocalSockets st) pp = []"
  show r: "handleUdpMessage st msg ri pp lp =
        (Dropped, broadcastLog Warning ''no idle agent connection for UDP data'' (countCall st))"
    using e by (rule handleUdpMessage_empty)
  show "written (snd (handleUdpMessage st msg ri pp lp)) = written st"
    "waitingQueue (snd (handleUdpMessage st msg ri pp lp)) = waitingQueue st"
    "idleLocalSockets (snd (handleUdpMessage st msg ri pp lp)) = idleLocalSockets st"
    "udpPending (snd (handleUdpMessage st msg ri pp lp)) = udpPending st"
    "logs (snd (handleUdpMessage st msg ri pp lp)) =
        logs st @ [(Info, ''UDP message received''),
                   (Warning, ''no idle agent connection for UDP data'')]"
    by (simp_all add: r broadcastLog_fields countCall_fields)
next
  assume "fst (handleUdpMessage st msg ri pp lp) = Forwarded c sk"
  then show "dropWhile (\<lambda>x. x \<in> destroyed st) (getOrEmpty (idleLocalSockets st) pp) =
        sk # getOrEmpty (idleLocalSockets (snd (handleUdpMessage st msg ri pp lp))) pp"
    by (rule handleUdpMessage_selected)
next
  assume "8 \<le> length data \<and> readUInt16BE data 6 = Some n \<and> 8 + n \<le> length data"
  then show "getOrEmpty (idleLocalSockets (responseHandler st c sk ri pp data)) pp =
        getOrEmpty (idleLocalSockets st) pp @ [sk]"
    by (simp add: responseHandler_def Let_def pool_returnToPool broadcastLog_fields)
next
  assume "activeConnections st c \<noteq> None"
  then show "getOrEmpty (idleLocalSockets (udpTimeout st c sk pp)) pp =
        getOrEmpty (idleLocalSockets st) pp @ [sk]"
    by (simp add: udpTimeout_def broadcastLog_fields pool_returnToPool)
qed

text \<open>
  Claim C5 on a Gateway without sessions, and on the pool of three sessions before and
  after a response or the timer.
\<close>

theorem udp_dispatch_pool_witness:
  "handleUdpMessage (freshGateway exampleConfig) [1, 2, 3] player 27015 27015 =
     (Dropped, broadcastLog Warning ''no idle agent connection for UDP data''
                 (countCall (freshGateway exampleConfig))) \<and>
   logs (snd (handleUdpMessage (freshGateway exampleConfig) [1, 2, 3] player 27015 27015)) =
     [(Info, ''UDP message received''), (Warning, ''no idle agent connection for UDP data'')] \<and>
   dropWhile (\<lambda>x. x \<in> destroyed udpGateway) (getOrEmpty (idleLocalSockets udpGateway) 27015) =
     202 # getOrEmpty (idleLocalSockets
               (snd (handleUdpMessage udpGateway [1, 2, 3] player 27015 27015))) 27015 \<and>
   getOrEmpty (idleLocalSockets
      (responseHandler (snd (handleUdpMessage udpGateway [1, 2, 3] player 27015 27015))
         2 202 player 27015 (zeroEnvelope [4, 5]))) 27015 = [203, 202] \<and>
   getOrEmpty (idleLocalSockets
      (udpTimeout (snd (handleUdpMessage udpGateway [1, 2, 3] player 27015 27015))
         2 202 27015)) 27015 = [203, 202]"
proof -
  let ?st = "snd (handleUdpMessage udpGateway [1, 2, 3] player 27015 27015)"
  have e: "getOrEmpty (idleLocalSockets (freshGateway exampleConfig)) 27015 = []"
    by (simp add: getOrEmpty_def freshGateway_fields)
  have f: "fst (handleUdpMessage udpGateway [1, 2, 3] player 27015 27015) = Forwarded 2 202"
    by (rule udpGateway_dispatch)
  have env: "8 \<le> length (zeroEnvelope [4, 5]) \<and> readUInt16BE (zeroEnvelope [4, 5]) 6 = Some 2 \<and>
             8 + 2 \<le> length (zeroEnvelope [4, 5])"
    by (simp add: zeroEnvelope_def readUInt16BE_def)
  have act: "activeConnections ?st 2 \<noteq> None"
    using handleUdpMessage_active [OF refl f] .
  note fresh = udp_dispatch_pool [of "freshGateway exampleConfig" 27015 "[1, 2, 3]" player 27015
      2 202 "zeroEnvelope [4, 5]" 2]
  note sel = udp_dispatch_pool [of udpGateway 27015 "[1, 2, 3]" player 27015
      2 202 "zeroEnvelope [4, 5]" 2]
  note ret = udp_dispatch_pool [of ?st 27015 "[1, 2, 3]" player 27015
      2 202 "zeroEnvelope [4, 5]" 2]
  have p1: "handleUdpMessage (freshGateway exampleConfig) [1, 2, 3] player 27015 27015 =
     (Dropped, broadcastLog Warning ''no idle agent connection for UDP data''
                 (countCall (freshGateway exampleConfig)))"
    using fresh e by blast
  have p2: "logs (snd (handleUdpMessage (freshGateway exampleConfig) [1, 2, 3] player 27015 27015)) =
     logs (freshGateway exampleConfig) @
       [(Info, ''UDP message received''), (Warning, ''no idle agent connection for UDP data'')]"
    using fresh e by blast
  have p3: "dropWhile (\<lambda>x. x \<in> destroyed udpGateway) (getOrEmpty (idleLocalSockets udpGateway) 27015) =
     202 # getOrEmpty (idleLocalSockets ?st) 27015"
    using sel f by blast
  have p4: "getOrEmpty (idleLocalSockets (responseHandler ?st 2 202 player 27015 (zeroEnvelope [4, 5])))
      27015 = getOrEmpty (idleLocalSockets ?st) 27015 @ [202]"
    using ret env by blast
  have p5: "getOrEmpty (idleLocalSockets (udpTimeout ?st 2 202 27015)) 27015 =
      getOrEmpty (idleLocalSockets ?st) 27015 @ [202]"
    using ret act by blast
  show ?thesis
    using p1 p2 p3 p4 p5 by (simp add: udpGateway_dispatch freshGateway_fields)
qed

text \<open>
  Claim C5 as stated fails: session 202 carries the datagram and is no longer in the
  idle pool afterwards.
\<close>

theorem udp_dispatch_pool_counterexample:
  "fst (handleUdpMessage udpGateway [1, 2, 3] player 27015 27015) = Forwarded 2 202 \<and>
   202 \<notin> set (getOrEmpty (idleLocalSockets
                  (snd (handleUdpMessage udpGateway [1, 2, 3] player 27015 27015))) 27015)"
  by (simp add: udpGateway_dispatch)

end
